theory Spec2Isabelle
  imports Complex_Main "HOL-Library.AList" "HOL-Library.Sublist"
begin

section \<open>Python and numpy values used by the tensor rules\<close>

text \<open>
  The rules of \<^verbatim>\<open>mnist_tensor_analysis.ipynb\<close> work on numpy arrays of floats. A float is
  modelled as a real number or one of the three special values; finite arithmetic is exact
  (rounding and overflow are not modelled), the special values follow IEEE 754 as numpy
  does: a comparison with \<open>NaN\<close> is false, a division by zero gives \<open>NaN\<close> or an infinity
  and raises nothing.
\<close>

datatype exn =
  NoMoreData | StepUnavailable | TensorUnavailableForStep
  | ValueError | AxisError | IndexError | KeyError | OtherError

datatype fl = Fin real | PInf | NInf | NaN

fun fl_add :: "fl \<Rightarrow> fl \<Rightarrow> fl" where
  "fl_add (Fin a) (Fin b) = Fin (a + b)"
| "fl_add NaN _ = NaN"
| "fl_add _ NaN = NaN"
| "fl_add PInf NInf = NaN"
| "fl_add NInf PInf = NaN"
| "fl_add PInf _ = PInf"
| "fl_add _ PInf = PInf"
| "fl_add NInf _ = NInf"
| "fl_add _ NInf = NInf"

fun fl_neg :: "fl \<Rightarrow> fl" where
  "fl_neg (Fin a) = Fin (- a)"
| "fl_neg PInf = NInf"
| "fl_neg NInf = PInf"
| "fl_neg NaN = NaN"

definition fl_sub :: "fl \<Rightarrow> fl \<Rightarrow> fl" where
  "fl_sub a b = fl_add a (fl_neg b)"

fun fl_sign :: "fl \<Rightarrow> int" where
  "fl_sign (Fin a) = (if a < 0 then -1 else if a = 0 then 0 else 1)"
| "fl_sign PInf = 1"
| "fl_sign NInf = -1"
| "fl_sign NaN = 0"

fun fl_mul :: "fl \<Rightarrow> fl \<Rightarrow> fl" where
  "fl_mul (Fin a) (Fin b) = Fin (a * b)"
| "fl_mul NaN _ = NaN"
| "fl_mul _ NaN = NaN"
| "fl_mul a b =
     (if fl_sign a * fl_sign b = 0 then NaN
      else if fl_sign a * fl_sign b < 0 then NInf else PInf)"

text \<open>Division of a float by a non-negative Python int (a dimension or an element count).\<close>

fun fl_div_count :: "fl \<Rightarrow> nat \<Rightarrow> fl" where
  "fl_div_count (Fin a) n =
     (if n = 0 then (if a = 0 then NaN else if 0 < a then PInf else NInf)
      else Fin (a / real n))"
| "fl_div_count PInf n = PInf"
| "fl_div_count NInf n = NInf"
| "fl_div_count NaN n = NaN"

fun fl_less :: "fl \<Rightarrow> fl \<Rightarrow> bool" where
  "fl_less (Fin a) (Fin b) = (a < b)"
| "fl_less NaN _ = False"
| "fl_less _ NaN = False"
| "fl_less _ NInf = False"
| "fl_less PInf _ = False"
| "fl_less NInf _ = True"
| "fl_less _ PInf = True"

fun fl_le :: "fl \<Rightarrow> fl \<Rightarrow> bool" where
  "fl_le (Fin a) (Fin b) = (a \<le> b)"
| "fl_le NaN _ = False"
| "fl_le _ NaN = False"
| "fl_le NInf _ = True"
| "fl_le _ PInf = True"
| "fl_le _ NInf = False"
| "fl_le PInf _ = False"

definition fl_sum :: "fl list \<Rightarrow> fl" where
  "fl_sum xs = foldl fl_add (Fin 0) xs"

text \<open>
  A numpy array: its shape and its elements in row-major order. A numpy scalar is an array
  of shape \<open>[]\<close> with one element.
\<close>

record ndarray =
  shape :: "nat list"
  data :: "fl list"

definition wf_ndarray :: "ndarray \<Rightarrow> bool" where
  "wf_ndarray t = (length (data t) = prod_list (shape t))"

text \<open>The \<open>k\<close> consecutive blocks of \<open>m\<close> elements of a row-major element list.\<close>

definition rows :: "nat \<Rightarrow> nat \<Rightarrow> 'a list \<Rightarrow> 'a list list" where
  "rows k m d = map (\<lambda>i. take m (drop (i * m) d)) [0..<k]"

text \<open>\<^verbatim>\<open>np.sum(tensor, axis=0)\<close>: raises \<^verbatim>\<open>AxisError\<close> on an array without dimensions.\<close>

definition np_sum_axis0 :: "ndarray \<Rightarrow> exn + ndarray" where
  "np_sum_axis0 t =
     (case shape t of
        [] \<Rightarrow> Inl AxisError
      | b # rest \<Rightarrow>
          Inr \<lparr>shape = rest,
               data = foldl (\<lambda>acc row. map2 fl_add acc row)
                        (replicate (prod_list rest) (Fin 0))
                        (rows b (prod_list rest) (data t))\<rparr>)"

text \<open>\<^verbatim>\<open>tensor.shape[0]\<close>: raises \<^verbatim>\<open>IndexError\<close> on an empty shape tuple.\<close>

definition shape0 :: "ndarray \<Rightarrow> exn + nat" where
  "shape0 t = (case shape t of [] \<Rightarrow> Inl IndexError | b # rest \<Rightarrow> Inr b)"

text \<open>\<^verbatim>\<open>array / n\<close> for a Python int \<open>n\<close>: element-wise, never raises.\<close>

definition np_divide :: "ndarray \<Rightarrow> nat \<Rightarrow> ndarray" where
  "np_divide a n = a\<lparr>data := map (\<lambda>x. fl_div_count x n) (data a)\<rparr>"

text \<open>\<^verbatim>\<open>tensor.flatten()\<close> and \<^verbatim>\<open>np.var\<close> of a flat array (the mean of the squared deviations
  from the mean; \<open>NaN\<close> on an empty array, with a warning only).\<close>

definition flatten :: "ndarray \<Rightarrow> fl list" where
  "flatten t = data t"

definition np_var :: "fl list \<Rightarrow> fl" where
  "np_var xs =
     (let n = length xs;
          mean = fl_div_count (fl_sum xs) n;
          sq = map (\<lambda>x. fl_mul (fl_sub x mean) (fl_sub x mean)) xs
      in fl_div_count (fl_sum sq) n)"

text \<open>\<^verbatim>\<open>np.min\<close> and \<^verbatim>\<open>np.max\<close>: \<^verbatim>\<open>ValueError\<close> on an array without elements; a \<open>NaN\<close>
  element makes the result \<open>NaN\<close>.\<close>

definition fl_min :: "fl \<Rightarrow> fl \<Rightarrow> fl" where
  "fl_min a b = (if a = NaN \<or> b = NaN then NaN else if fl_less b a then b else a)"

definition fl_max :: "fl \<Rightarrow> fl \<Rightarrow> fl" where
  "fl_max a b = (if a = NaN \<or> b = NaN then NaN else if fl_less a b then b else a)"

definition np_min :: "ndarray \<Rightarrow> exn + fl" where
  "np_min t = (case data t of [] \<Rightarrow> Inl ValueError | x # xs \<Rightarrow> Inr (foldl fl_min x xs))"

definition np_max :: "ndarray \<Rightarrow> exn + fl" where
  "np_max t = (case data t of [] \<Rightarrow> Inl ValueError | x # xs \<Rightarrow> Inr (foldl fl_max x xs))"

text \<open>
  Broadcasting the elements of an array of shape \<open>ss\<close> to the shape \<open>ts\<close> of the same
  length, where every dimension of \<open>ss\<close> equals that of \<open>ts\<close> or is 1.
\<close>

fun bcast :: "nat list \<Rightarrow> nat list \<Rightarrow> 'a list \<Rightarrow> 'a list" where
  "bcast (t # ts) (s # ss) d =
     (if s = t then concat (map (bcast ts ss) (rows t (prod_list ss) d))
      else concat (replicate t (bcast ts ss d)))"
| "bcast _ _ d = d"

definition broadcast_to :: "nat list \<Rightarrow> ndarray \<Rightarrow> exn + fl list" where
  "broadcast_to target x =
     (if length target < length (shape x) then Inl ValueError
      else
        let padded = replicate (length target - length (shape x)) 1 @ shape x
        in if list_all2 (\<lambda>s t. s = t \<or> s = 1) padded target
           then Inr (bcast target padded (data x))
           else Inl ValueError)"

text \<open>
  The values a rule stores per step: the Python int \<open>0\<close> it starts from, or a numpy value.
  \<^verbatim>\<open>acc += x\<close> with a numpy array \<open>x\<close>: an int or a numpy scalar on the left gives
  \<^verbatim>\<open>acc + x\<close> with the shape of \<open>x\<close>; an array on the left is updated in place, and
  \<open>x\<close> must broadcast to its shape (\<^verbatim>\<open>ValueError\<close> otherwise).
\<close>

datatype pyval = PyInt int | Np ndarray

fun py_iadd :: "pyval \<Rightarrow> ndarray \<Rightarrow> exn + pyval" where
  "py_iadd (PyInt i) x = Inr (Np (x\<lparr>data := map (fl_add (Fin (of_int i))) (data x)\<rparr>))"
| "py_iadd (Np a) x =
     (case shape a of
        [] \<Rightarrow> (case data a of
                 [v] \<Rightarrow> Inr (Np (x\<lparr>data := map (fl_add v) (data x)\<rparr>))
               | _ \<Rightarrow> Inl ValueError)
      | _ # _ \<Rightarrow> (case broadcast_to (shape a) x of
                   Inl e \<Rightarrow> Inl e
                 | Inr xs \<Rightarrow> Inr (Np (a\<lparr>data := map2 fl_add (data a) xs\<rparr>))))"

text \<open>Python's \<^verbatim>\<open>sub in s\<close> on strings.\<close>

fun str_contains :: "string \<Rightarrow> string \<Rightarrow> bool" where
  "str_contains sub [] = (sub = [])"
| "str_contains sub (c # cs) = (prefix sub (c # cs) \<or> str_contains sub cs)"

section \<open>Dictionaries, the trial and the rule objects\<close>

text \<open>
  \<^verbatim>\<open>collections.OrderedDict\<close> and \<^verbatim>\<open>dict\<close> keep their keys in insertion order; an
  assignment to a key that is present replaces the value in place. They are association
  lists with \<^const>\<open>map_of\<close> as lookup.
\<close>

definition dict_has :: "('k \<times> 'v) list \<Rightarrow> 'k \<Rightarrow> bool" where
  "dict_has d k = (map_of d k \<noteq> None)"

definition dict_set :: "('k \<times> 'v) list \<Rightarrow> 'k \<Rightarrow> 'v \<Rightarrow> ('k \<times> 'v) list" where
  "dict_set d k v = AList.update k v d"

text \<open>
  The trial is the handle to the external trace store (smdebug, not part of the notebook):
  \<^verbatim>\<open>tensor_names(regex=r)\<close> lists the names the store matches with \<open>r\<close>, and
  \<^verbatim>\<open>tensor(tname).value(step)\<close> returns the array or raises.
\<close>

record trial =
  tensor_names :: "string \<Rightarrow> string list"
  tensor_value :: "string \<Rightarrow> int \<Rightarrow> exn + ndarray"

text \<open>
  What a rule writes to \<^verbatim>\<open>self.logger\<close>: the warning of the \<^verbatim>\<open>except\<close> branch with
  the tensor name, or an info line (its text is not modelled).
\<close>

datatype log_record = Warning string | Info

record ('k, 'v) rule =
  tensors :: "('k \<times> 'v) list"
  logger :: "log_record list"

type_synonym name_rule = "(string, (int \<times> pyval) list) rule"
type_synonym step_rule = "(int, fl \<times> fl) rule"

text \<open>\<^verbatim>\<open>__init__\<close>: \<^verbatim>\<open>self.tensors = collections.OrderedDict()\<close>.\<close>

definition new_rule :: "('k, 'v) rule" where
  "new_rule = \<lparr>tensors = [], logger = []\<rparr>"

definition info :: "('k, 'v) rule \<Rightarrow> ('k, 'v) rule" where
  "info st = st\<lparr>logger := logger st @ [Info]\<rparr>"

text \<open>
  The handler \<^verbatim>\<open>except: self.logger.warning(f"Can not fetch tensor {tname}")\<close>. The
  \<^verbatim>\<open>try\<close> block returns the rule as it has mutated it, and the exception if one was
  raised: what the block assigned before the exception stays assigned.
\<close>

definition except_warning :: "string \<Rightarrow> ('k, 'v) rule \<times> exn option \<Rightarrow> ('k, 'v) rule" where
  "except_warning tname r =
     (case r of
        (st, None) \<Rightarrow> st
      | (st, Some e) \<Rightarrow> st\<lparr>logger := logger st @ [Warning tname]\<rparr>)"

text \<open>
  The loop all seven rules share:
  \<^verbatim>\<open>for tname in self.base_trial.tensor_names(regex=...): if "..." not in tname: try: ...\<close>
  (\<open>excluded = None\<close> for the two gradient rules, which have no such test).
\<close>

definition kept :: "string option \<Rightarrow> string \<Rightarrow> bool" where
  "kept excluded tname = (case excluded of None \<Rightarrow> True | Some sub \<Rightarrow> \<not> str_contains sub tname)"

definition for_tensor_names ::
  "string \<Rightarrow> string option \<Rightarrow> (trial \<Rightarrow> int \<Rightarrow> string \<Rightarrow> ('k, 'v) rule \<Rightarrow> ('k, 'v) rule \<times> exn option)
   \<Rightarrow> trial \<Rightarrow> int \<Rightarrow> ('k, 'v) rule \<Rightarrow> ('k, 'v) rule" where
  "for_tensor_names regex excluded try_block trial step st =
     foldl (\<lambda>s tname. if kept excluded tname
                       then except_warning tname (try_block trial step tname s)
                       else s)
       st (tensor_names trial regex)"

section \<open>The rule classes of the notebook\<close>

text \<open>
  \<^verbatim>\<open>batch_over_sum = np.sum(tensor, axis=0) / tensor.shape[0]\<close>: the sum is evaluated
  first, so a tensor without dimensions raises \<^verbatim>\<open>AxisError\<close>.
\<close>

definition batch_over_sum :: "ndarray \<Rightarrow> exn + ndarray" where
  "batch_over_sum tensor =
     (case np_sum_axis0 tensor of
        Inl e \<Rightarrow> Inl e
      | Inr s \<Rightarrow> (case shape0 tensor of Inl e \<Rightarrow> Inl e | Inr b \<Rightarrow> Inr (np_divide s b)))"

text \<open>
  The \<^verbatim>\<open>try\<close> block of \<^verbatim>\<open>ActivationOutputs.invoke_at_step\<close> and of
  \<^verbatim>\<open>ActivationInputs.invoke_at_step\<close> (the two blocks differ in the text of the info line
  only). \<^verbatim>\<open>np.where(tensor <= 0)[0]\<close> has one index per element that is at most 0; on a
  tensor without dimensions numpy raises there or, in its older versions, at the sum that
  follows, and the dict is the same in both cases (the older behaviour is the one written
  here). The \<^verbatim>\<open>KeyError\<close> branches are what Python would raise on a missing key; the
  assignments just before them make the key present.
\<close>

definition activation_try :: "trial \<Rightarrow> int \<Rightarrow> string \<Rightarrow> name_rule \<Rightarrow> name_rule \<times> exn option" where
  "activation_try trial step tname st =
     (case tensor_value trial tname step of
        Inl e \<Rightarrow> (st, Some e)
      | Inr tensor \<Rightarrow>
          let ts1 = (if \<not> dict_has (tensors st) tname then dict_set (tensors st) tname []
                     else tensors st)
          in (case map_of ts1 tname of
                None \<Rightarrow> (st\<lparr>tensors := ts1\<rparr>, Some KeyError)
              | Some d \<Rightarrow>
                  let d1 = (if \<not> dict_has d step then dict_set d step (PyInt 0) else d);
                      st2 = st\<lparr>tensors := dict_set ts1 tname d1\<rparr>;
                      neg_values = filter (\<lambda>x. fl_le x (Fin 0)) (data tensor);
                      st3 = (if 0 < length neg_values then info st2 else st2)
                  in (case batch_over_sum tensor of
                        Inl e \<Rightarrow> (st3, Some e)
                      | Inr x \<Rightarrow>
                          (case map_of d1 step of
                             None \<Rightarrow> (st3, Some KeyError)
                           | Some acc \<Rightarrow>
                               (case py_iadd acc x of
                                  Inl e \<Rightarrow> (st3, Some e)
                                | Inr v \<Rightarrow>
                                    (st3\<lparr>tensors := dict_set (tensors st3) tname (dict_set d1 step v)\<rparr>,
                                     None))))))"

text \<open>
  The arguments of the info line, evaluated before the tensor is stored:
  \<^verbatim>\<open>np.min(tensor)\<close> and \<^verbatim>\<open>np.max(tensor)\<close> in \<^verbatim>\<open>GradientsLayer\<close>, which raise on a
  tensor without elements, and \<^verbatim>\<open>np.var(tensor.flatten())\<close> in \<^verbatim>\<open>WeightRatio\<close>,
  \<^verbatim>\<open>Inputs\<close> and \<^verbatim>\<open>Outputs\<close>, which never raises. \<open>Some e\<close> is the exception raised.
\<close>

definition range_args :: "ndarray \<Rightarrow> exn option" where
  "range_args tensor =
     (case np_min tensor of
        Inl e \<Rightarrow> Some e
      | Inr lo \<Rightarrow> (case np_max tensor of Inl e \<Rightarrow> Some e | Inr hi \<Rightarrow> None))"

definition variance_args :: "ndarray \<Rightarrow> exn option" where
  "variance_args tensor = (case np_var (flatten tensor) of v \<Rightarrow> None)"

text \<open>
  The \<^verbatim>\<open>try\<close> block of \<^verbatim>\<open>GradientsLayer\<close>, \<^verbatim>\<open>WeightRatio\<close>, \<^verbatim>\<open>Inputs\<close> and
  \<^verbatim>\<open>Outputs\<close>: fetch, create the inner dict, log, store the raw tensor.
\<close>

definition store_try ::
  "(ndarray \<Rightarrow> exn option) \<Rightarrow> trial \<Rightarrow> int \<Rightarrow> string \<Rightarrow> name_rule \<Rightarrow> name_rule \<times> exn option" where
  "store_try log_args trial step tname st =
     (case tensor_value trial tname step of
        Inl e \<Rightarrow> (st, Some e)
      | Inr tensor \<Rightarrow>
          let st1 = (if \<not> dict_has (tensors st) tname
                     then st\<lparr>tensors := dict_set (tensors st) tname []\<rparr> else st)
          in (case log_args tensor of
                Some e \<Rightarrow> (st1, Some e)
              | None \<Rightarrow>
                  let st2 = info st1
                  in (case map_of (tensors st2) tname of
                        None \<Rightarrow> (st2, Some KeyError)
                      | Some d \<Rightarrow>
                          (st2\<lparr>tensors := dict_set (tensors st2) tname (dict_set d step (Np tensor))\<rparr>,
                           None))))"

text \<open>
  The \<^verbatim>\<open>try\<close> block of \<^verbatim>\<open>GradientsAcrossLayers\<close>: the dict is keyed by step and holds
  the list \<^verbatim>\<open>[np.inf, 0]\<close>, updated by \<^verbatim>\<open>if variance < ...[0]: ... elif variance > ...[1]: ...\<close>.
  The ratio in the info line divides numpy floats (or \<^verbatim>\<open>0 / inf\<close>) and raises nothing.
\<close>

definition variance_try :: "trial \<Rightarrow> int \<Rightarrow> string \<Rightarrow> step_rule \<Rightarrow> step_rule \<times> exn option" where
  "variance_try trial step tname st =
     (case tensor_value trial tname step of
        Inl e \<Rightarrow> (st, Some e)
      | Inr tensor \<Rightarrow>
          let ts1 = (if \<not> dict_has (tensors st) step then dict_set (tensors st) step (PInf, Fin 0)
                     else tensors st);
              variance = np_var (flatten tensor)
          in (case map_of ts1 step of
                None \<Rightarrow> (st\<lparr>tensors := ts1\<rparr>, Some KeyError)
              | Some (lo, hi) \<Rightarrow>
                  let ts2 = (if fl_less variance lo then dict_set ts1 step (variance, hi)
                             else if fl_less hi variance then dict_set ts1 step (lo, variance)
                             else ts1)
                  in (info (st\<lparr>tensors := ts2\<rparr>), None)))"

definition ActivationOutputs_invoke_at_step :: "trial \<Rightarrow> int \<Rightarrow> name_rule \<Rightarrow> name_rule \<times> bool" where
  "ActivationOutputs_invoke_at_step trial step st =
     (for_tensor_names ''.*relu_output'' (Some ''gradients'') activation_try trial step st, False)"

definition ActivationInputs_invoke_at_step :: "trial \<Rightarrow> int \<Rightarrow> name_rule \<Rightarrow> name_rule \<times> bool" where
  "ActivationInputs_invoke_at_step trial step st =
     (for_tensor_names ''.*relu_input'' (Some ''gradients'') activation_try trial step st, False)"

definition GradientsLayer_invoke_at_step :: "trial \<Rightarrow> int \<Rightarrow> name_rule \<Rightarrow> name_rule \<times> bool" where
  "GradientsLayer_invoke_at_step trial step st =
     (for_tensor_names ''.*gradient'' None (store_try range_args) trial step st, False)"

definition GradientsAcrossLayers_invoke_at_step :: "trial \<Rightarrow> int \<Rightarrow> step_rule \<Rightarrow> step_rule \<times> bool" where
  "GradientsAcrossLayers_invoke_at_step trial step st =
     (for_tensor_names ''.*gradient'' None variance_try trial step st, False)"

definition WeightRatio_invoke_at_step :: "trial \<Rightarrow> int \<Rightarrow> name_rule \<Rightarrow> name_rule \<times> bool" where
  "WeightRatio_invoke_at_step trial step st =
     (for_tensor_names ''.*weight'' (Some ''gradient'') (store_try variance_args) trial step st, False)"

definition Inputs_invoke_at_step :: "trial \<Rightarrow> int \<Rightarrow> name_rule \<Rightarrow> name_rule \<times> bool" where
  "Inputs_invoke_at_step trial step st =
     (for_tensor_names ''.*input'' (Some ''relu'') (store_try variance_args) trial step st, False)"

definition Outputs_invoke_at_step :: "trial \<Rightarrow> int \<Rightarrow> name_rule \<Rightarrow> name_rule \<times> bool" where
  "Outputs_invoke_at_step trial step st =
     (for_tensor_names ''.*output'' (Some ''relu'') (store_try variance_args) trial step st, False)"

section \<open>Vocabulary of the properties\<close>

text \<open>
  The variances of the gradient tensors that \<^verbatim>\<open>GradientsAcrossLayers\<close> fetches
  successfully at a step, in the order of the loop.
\<close>

definition fetched_variances :: "trial \<Rightarrow> int \<Rightarrow> fl list" where
  "fetched_variances trial step =
     concat (map (\<lambda>tname. case tensor_value trial tname step of
                             Inl e \<Rightarrow> []
                           | Inr tensor \<Rightarrow> [np_var (flatten tensor)])
               (tensor_names trial ''.*gradient''))"

text \<open>Two gradient tensors whose variances decrease from one layer to the next.\<close>

definition vanishing_trial :: trial where
  "vanishing_trial =
     \<lparr>tensor_names = (\<lambda>regex. if regex = ''.*gradient''
                               then [''gradient/conv0_weight'', ''gradient/conv1_weight'']
                               else []),
      tensor_value = (\<lambda>tname step.
         if step = 0 \<and> tname = ''gradient/conv0_weight''
           then Inr \<lparr>shape = [2], data = [Fin 0, Fin 1]\<rparr>
         else if step = 0 \<and> tname = ''gradient/conv1_weight''
           then Inr \<lparr>shape = [4], data = [Fin 0, Fin 0, Fin 0, Fin 1]\<rparr>
         else Inl TensorUnavailableForStep)\<rparr>"

section \<open>The driver and the notebook cell\<close>

text \<open>
  Modelled from the spec: \<^verbatim>\<open>invoke_rule\<close> belongs to smdebug and is not part of the
  notebook. It takes the notifications "step available" of the external source in order
  (each with the trial as it is then), calls the rule at the step and discards what
  \<^verbatim>\<open>invoke_at_step\<close> returns unless it is true; when the source has nothing more it
  raises its final signal, \<^verbatim>\<open>NoMoreData\<close> once the training job has completed. The rule
  object keeps what it has accumulated when the signal is raised.
\<close>

fun invoke_rule ::
  "(trial \<Rightarrow> int \<Rightarrow> 's \<Rightarrow> 's \<times> bool) \<Rightarrow> (int \<times> trial) list \<Rightarrow> exn \<Rightarrow> 's \<Rightarrow> 's \<times> exn" where
  "invoke_rule invoke_at_step [] final st = (st, final)"
| "invoke_rule invoke_at_step ((step, trial) # rest) final st =
     invoke_rule invoke_at_step rest final (fst (invoke_at_step trial step st))"

text \<open>
  The cell of the notebook:
  \<^verbatim>\<open>rule = C(trial1); try: invoke_rule(rule) except NoMoreData: print("...")\<close>.
  Any other exception leaves the cell unhandled.
\<close>

datatype cell_outcome = PrintedExpectedEnd | Unhandled exn

definition run_cell ::
  "(trial \<Rightarrow> int \<Rightarrow> ('k, 'v) rule \<Rightarrow> ('k, 'v) rule \<times> bool) \<Rightarrow> (int \<times> trial) list \<Rightarrow> exn
   \<Rightarrow> ('k, 'v) rule \<times> cell_outcome" where
  "run_cell invoke_at_step trace final =
     (case invoke_rule invoke_at_step trace final new_rule of
        (rule, e) \<Rightarrow> (rule, if e = NoMoreData then PrintedExpectedEnd else Unhandled e))"

text \<open>
  The seven rule classes. Six keep a dict from tensor name to a dict from step to value;
  \<^verbatim>\<open>GradientsAcrossLayers\<close> keeps a dict from step to \<^verbatim>\<open>[min, max]\<close>.
\<close>

datatype name_class =
  ActivationOutputs | ActivationInputs | GradientsLayer | WeightRatio | Inputs | Outputs

datatype rule_class = NameKeyed name_class | GradientsAcrossLayers

fun name_invoke_at_step :: "name_class \<Rightarrow> trial \<Rightarrow> int \<Rightarrow> name_rule \<Rightarrow> name_rule \<times> bool" where
  "name_invoke_at_step ActivationOutputs = ActivationOutputs_invoke_at_step"
| "name_invoke_at_step ActivationInputs = ActivationInputs_invoke_at_step"
| "name_invoke_at_step GradientsLayer = GradientsLayer_invoke_at_step"
| "name_invoke_at_step WeightRatio = WeightRatio_invoke_at_step"
| "name_invoke_at_step Inputs = Inputs_invoke_at_step"
| "name_invoke_at_step Outputs = Outputs_invoke_at_step"

text \<open>The regular expression and the excluded substring each class is written with.\<close>

fun regex_of :: "rule_class \<Rightarrow> string" where
  "regex_of (NameKeyed ActivationOutputs) = ''.*relu_output''"
| "regex_of (NameKeyed ActivationInputs) = ''.*relu_input''"
| "regex_of (NameKeyed GradientsLayer) = ''.*gradient''"
| "regex_of GradientsAcrossLayers = ''.*gradient''"
| "regex_of (NameKeyed WeightRatio) = ''.*weight''"
| "regex_of (NameKeyed Inputs) = ''.*input''"
| "regex_of (NameKeyed Outputs) = ''.*output''"

fun excluded_of :: "rule_class \<Rightarrow> string option" where
  "excluded_of (NameKeyed ActivationOutputs) = Some ''gradients''"
| "excluded_of (NameKeyed ActivationInputs) = Some ''gradients''"
| "excluded_of (NameKeyed GradientsLayer) = None"
| "excluded_of GradientsAcrossLayers = None"
| "excluded_of (NameKeyed WeightRatio) = Some ''gradient''"
| "excluded_of (NameKeyed Inputs) = Some ''relu''"
| "excluded_of (NameKeyed Outputs) = Some ''relu''"

fun try_block_of ::
  "name_class \<Rightarrow> trial \<Rightarrow> int \<Rightarrow> string \<Rightarrow> name_rule \<Rightarrow> name_rule \<times> exn option" where
  "try_block_of ActivationOutputs = activation_try"
| "try_block_of ActivationInputs = activation_try"
| "try_block_of GradientsLayer = store_try range_args"
| "try_block_of WeightRatio = store_try variance_args"
| "try_block_of Inputs = store_try variance_args"
| "try_block_of Outputs = store_try variance_args"

text \<open>
  \<^verbatim>\<open>rule.tensors\<close> and the log of a new rule object of a class after the cell has run on
  the notifications and the source has signalled \<^verbatim>\<open>NoMoreData\<close>.
\<close>

datatype tensors_dict =
  ByName "(string \<times> (int \<times> pyval) list) list"
  | ByStep "(int \<times> fl \<times> fl) list"

fun rule_tensors :: "rule_class \<Rightarrow> (int \<times> trial) list \<Rightarrow> tensors_dict" where
  "rule_tensors (NameKeyed c) trace =
     ByName (tensors (fst (run_cell (name_invoke_at_step c) trace NoMoreData)))"
| "rule_tensors GradientsAcrossLayers trace =
     ByStep (tensors (fst (run_cell GradientsAcrossLayers_invoke_at_step trace NoMoreData)))"

fun rule_log :: "rule_class \<Rightarrow> (int \<times> trial) list \<Rightarrow> log_record list" where
  "rule_log (NameKeyed c) trace = logger (fst (run_cell (name_invoke_at_step c) trace NoMoreData))"
| "rule_log GradientsAcrossLayers trace =
     logger (fst (run_cell GradientsAcrossLayers_invoke_at_step trace NoMoreData))"

text \<open>
  \<^verbatim>\<open>tname in rule.tensors\<close>, \<^verbatim>\<open>tname in rule.tensors and step in rule.tensors[tname]\<close>,
  \<^verbatim>\<open>rule.tensors[tname][step]\<close> and \<^verbatim>\<open>step in rule.tensors\<close>. A tensor name is a string
  and never equals the int key of a dict keyed by step.
\<close>

fun has_name :: "tensors_dict \<Rightarrow> string \<Rightarrow> bool" where
  "has_name (ByName m) tname = dict_has m tname"
| "has_name (ByStep m) tname = False"

definition name_step_in :: "(string \<times> (int \<times> 'v) list) list \<Rightarrow> string \<Rightarrow> int \<Rightarrow> bool" where
  "name_step_in m tname step =
     (case map_of m tname of None \<Rightarrow> False | Some d \<Rightarrow> dict_has d step)"

definition value_at :: "(string \<times> (int \<times> 'v) list) list \<Rightarrow> string \<Rightarrow> int \<Rightarrow> 'v option" where
  "value_at m tname step = (case map_of m tname of None \<Rightarrow> None | Some d \<Rightarrow> map_of d step)"

fun has_entry :: "tensors_dict \<Rightarrow> string \<Rightarrow> int \<Rightarrow> bool" where
  "has_entry (ByName m) tname step = name_step_in m tname step"
| "has_entry (ByStep m) tname step = False"

fun has_step :: "tensors_dict \<Rightarrow> int \<Rightarrow> bool" where
  "has_step (ByName m) step = False"
| "has_step (ByStep m) step = dict_has m step"

text \<open>
  What one pass of the \<^verbatim>\<open>if ... elif ...\<close> of \<^verbatim>\<open>GradientsAcrossLayers\<close> makes of the
  pair \<^verbatim>\<open>[lo, hi]\<close> for a variance, and the pair the rule starts a step with.
\<close>

fun minmax_pass :: "fl \<times> fl \<Rightarrow> fl \<Rightarrow> fl \<times> fl" where
  "minmax_pass (lo, hi) variance =
     (if fl_less variance lo then (variance, hi)
      else if fl_less hi variance then (lo, variance)
      else (lo, hi))"

definition pair_at :: "(int \<times> fl \<times> fl) list \<Rightarrow> int \<Rightarrow> fl \<times> fl" where
  "pair_at m step = (case map_of m step of None \<Rightarrow> (PInf, Fin 0) | Some p \<Rightarrow> p)"

text \<open>Three gradient tensors with the variances 0.1, 0.5 and 0.2, in this order.\<close>

definition sample_trial :: trial where
  "sample_trial =
     \<lparr>tensor_names = (\<lambda>regex. if regex = ''.*gradient''
                               then [''gradient/a'', ''gradient/b'', ''gradient/c'']
                               else []),
      tensor_value = (\<lambda>tname step.
         if step = 7 \<and> tname = ''gradient/a''
           then Inr \<lparr>shape = [5], data = [Fin (1/2), Fin (- 1/2), Fin 0, Fin 0, Fin 0]\<rparr>
         else if step = 7 \<and> tname = ''gradient/b''
           then Inr \<lparr>shape = [2, 2], data = [Fin 1, Fin (- 1), Fin 0, Fin 0]\<rparr>
         else if step = 7 \<and> tname = ''gradient/c''
           then Inr \<lparr>shape = [5], data = [Fin (1/2), Fin (- 1/2), Fin (1/2), Fin (- 1/2), Fin 0]\<rparr>
         else Inl TensorUnavailableForStep)\<rparr>"

section \<open>The effect of a rule on its dict\<close>

text \<open>
  \<^verbatim>\<open>d[tname][step] = v\<close> with \<^verbatim>\<open>d[tname]\<close> created empty when the name is new, and the
  creation of \<^verbatim>\<open>d[tname]\<close> alone.
\<close>

definition inner_of :: "(string \<times> (int \<times> 'v) list) list \<Rightarrow> string \<Rightarrow> (int \<times> 'v) list" where
  "inner_of m tname = (case map_of m tname of None \<Rightarrow> [] | Some d \<Rightarrow> d)"

definition nested_set ::
  "(string \<times> (int \<times> 'v) list) list \<Rightarrow> string \<Rightarrow> int \<Rightarrow> 'v \<Rightarrow> (string \<times> (int \<times> 'v) list) list" where
  "nested_set m tname step v = dict_set m tname (dict_set (inner_of m tname) step v)"

definition ensure_name ::
  "(string \<times> (int \<times> 'v) list) list \<Rightarrow> string \<Rightarrow> (string \<times> (int \<times> 'v) list) list" where
  "ensure_name m tname = (if dict_has m tname then m else dict_set m tname [])"

text \<open>
  The value the \<^verbatim>\<open>try\<close> block of the activation rules leaves at \<^verbatim>\<open>[tname][step]\<close> for a
  fetched tensor, from the value that was there (\<open>None\<close>: the key was absent): the sum
  \<^verbatim>\<open>acc + batch_over_sum\<close>, or \<open>acc\<close> itself when numpy raised on the way.
\<close>

definition activation_value :: "pyval option \<Rightarrow> ndarray \<Rightarrow> pyval" where
  "activation_value old tensor =
     (let acc = (case old of None \<Rightarrow> PyInt 0 | Some a \<Rightarrow> a)
      in case batch_over_sum tensor of
           Inl e \<Rightarrow> acc
         | Inr x \<Rightarrow> (case py_iadd acc x of Inl e \<Rightarrow> acc | Inr v \<Rightarrow> v))"

text \<open>
  What a name-keyed class stores for a fetched tensor (\<open>None\<close>: nothing, the block raised
  before the assignment), and the dict after the \<^verbatim>\<open>try\<close> block for a fetched tensor.
\<close>

fun stored_value :: "name_class \<Rightarrow> pyval option \<Rightarrow> ndarray \<Rightarrow> pyval option" where
  "stored_value ActivationOutputs old tensor = Some (activation_value old tensor)"
| "stored_value ActivationInputs old tensor = Some (activation_value old tensor)"
| "stored_value GradientsLayer old tensor =
     (if range_args tensor = None then Some (Np tensor) else None)"
| "stored_value WeightRatio old tensor = Some (Np tensor)"
| "stored_value Inputs old tensor = Some (Np tensor)"
| "stored_value Outputs old tensor = Some (Np tensor)"

definition apply_fetch ::
  "name_class \<Rightarrow> (string \<times> (int \<times> pyval) list) list \<Rightarrow> string \<Rightarrow> int \<Rightarrow> ndarray
   \<Rightarrow> (string \<times> (int \<times> pyval) list) list" where
  "apply_fetch c m tname step tensor =
     (case stored_value c (value_at m tname step) tensor of
        None \<Rightarrow> ensure_name m tname
      | Some v \<Rightarrow> nested_set m tname step v)"

text \<open>The dict of a name-keyed class after one name, one step and a list of notifications.\<close>

definition name_tensors ::
  "name_class \<Rightarrow> trial \<Rightarrow> int \<Rightarrow> (string \<times> (int \<times> pyval) list) list \<Rightarrow> string
   \<Rightarrow> (string \<times> (int \<times> pyval) list) list" where
  "name_tensors c trial step m tname =
     (if kept (excluded_of (NameKeyed c)) tname
      then (case tensor_value trial tname step of
              Inl e \<Rightarrow> m
            | Inr tensor \<Rightarrow> apply_fetch c m tname step tensor)
      else m)"

definition step_tensors ::
  "name_class \<Rightarrow> (string \<times> (int \<times> pyval) list) list \<Rightarrow> int \<times> trial
   \<Rightarrow> (string \<times> (int \<times> pyval) list) list" where
  "step_tensors c m note =
     foldl (name_tensors c (snd note) (fst note)) m
       (tensor_names (snd note) (regex_of (NameKeyed c)))"

definition run_tensors ::
  "name_class \<Rightarrow> (int \<times> trial) list \<Rightarrow> (string \<times> (int \<times> pyval) list) list" where
  "run_tensors c trace = foldl (step_tensors c) [] trace"

text \<open>
  \<^verbatim>\<open>rule.tensors[tname][step]\<close> on the dict of any class (a dict keyed by step has no
  tensor name as key).
\<close>

fun entry_value :: "tensors_dict \<Rightarrow> string \<Rightarrow> int \<Rightarrow> pyval option" where
  "entry_value (ByName m) tname step = value_at m tname step"
| "entry_value (ByStep m) tname step = None"

text \<open>
  A trial with one ReLU output of shape (4, 3) and all entries 1 at every step, the
  gradient of that output (which the activation rules exclude by name), and a ReLU output
  whose value cannot be fetched.
\<close>

definition relu_trial :: trial where
  "relu_trial =
     \<lparr>tensor_names = (\<lambda>regex.
         if regex = ''.*relu_output''
         then [''conv0_relu_output_0'', ''gradients/conv0_relu_output_0'', ''dense0_relu_output_0'']
         else []),
      tensor_value = (\<lambda>tname step.
         if tname = ''conv0_relu_output_0''
           then Inr \<lparr>shape = [4, 3],
                     data = [Fin 1, Fin 1, Fin 1, Fin 1, Fin 1, Fin 1,
                             Fin 1, Fin 1, Fin 1, Fin 1, Fin 1, Fin 1]\<rparr>
         else if tname = ''gradients/conv0_relu_output_0''
           then Inr \<lparr>shape = [1], data = [Fin 0]\<rparr>
         else Inl TensorUnavailableForStep)\<rparr>"

text \<open>The trial with the names whose value cannot be fetched at the step left out.\<close>

definition drop_failed :: "int \<times> trial \<Rightarrow> int \<times> trial" where
  "drop_failed note =
     (fst note,
      (snd note)\<lparr>tensor_names :=
         (\<lambda>regex. filter (\<lambda>tname. case tensor_value (snd note) tname (fst note) of
                                     Inl e \<Rightarrow> False | Inr tensor \<Rightarrow> True)
                     (tensor_names (snd note) regex))\<rparr>)"

text \<open>The dict of \<^verbatim>\<open>GradientsAcrossLayers\<close> after one step and after a list of notifications.\<close>

definition variance_tensors :: "(int \<times> fl \<times> fl) list \<Rightarrow> int \<times> trial \<Rightarrow> (int \<times> fl \<times> fl) list" where
  "variance_tensors m note =
     foldl (\<lambda>ts v. dict_set ts (fst note) (minmax_pass (pair_at ts (fst note)) v)) m
       (fetched_variances (snd note) (fst note))"

text \<open>
  The element-wise sum of a tensor of shape \<open>b # rest\<close> over its first dimension, divided
  by the batch size \<open>b\<close>: element \<open>j\<close> of the result adds the elements \<open>j\<close> of the \<open>b\<close>
  blocks of the row-major data.
\<close>

definition batch_mean :: "nat \<Rightarrow> nat list \<Rightarrow> fl list \<Rightarrow> ndarray" where
  "batch_mean b rest d =
     \<lparr>shape = rest,
      data = map (\<lambda>j. fl_div_count (fl_sum (map (\<lambda>i. d ! (i * prod_list rest + j)) [0..<b])) b)
               [0..<prod_list rest]\<rparr>"

text \<open>
  The rule object after \<^verbatim>\<open>invoke_at_step\<close> has been called, in order, for each
  notification of a list: what the rule has accumulated before any signal of the source.
\<close>

definition processed ::
  "(trial \<Rightarrow> int \<Rightarrow> 's \<Rightarrow> 's \<times> bool) \<Rightarrow> (int \<times> trial) list \<Rightarrow> 's \<Rightarrow> 's" where
  "processed invoke_at_step trace st =
     foldl (\<lambda>s nt. fst (invoke_at_step (snd nt) (fst nt) s)) st trace"

text \<open>
  The notifications and tensor names for which a rule enters its \<^verbatim>\<open>try\<close> block over a
  list of notifications, in the order of its iteration; one entry into the \<^verbatim>\<open>try\<close> block
  of a name-keyed class, with its handler; and the pairs (tensor name, step) of the entries.
\<close>

definition entered :: "rule_class \<Rightarrow> (int \<times> trial) list \<Rightarrow> ((int \<times> trial) \<times> string) list" where
  "entered c trace =
     concat (map (\<lambda>nt. map (\<lambda>tname. (nt, tname))
                          (filter (kept (excluded_of c)) (tensor_names (snd nt) (regex_of c))))
               trace)"

definition enter_try :: "name_class \<Rightarrow> name_rule \<Rightarrow> (int \<times> trial) \<times> string \<Rightarrow> name_rule" where
  "enter_try c st e =
     except_warning (snd e) (try_block_of c (snd (fst e)) (fst (fst e)) (snd e) st)"

definition visits :: "rule_class \<Rightarrow> (int \<times> trial) list \<Rightarrow> (string \<times> int) list" where
  "visits c trace = map (\<lambda>e. (snd e, fst (fst e))) (entered c trace)"

text \<open>
  The order of the keys of a dict that receives the keys \<open>xs\<close> one after the other: a key
  is appended when it is new and keeps its place otherwise.
\<close>

definition append_new :: "'a list \<Rightarrow> 'a \<Rightarrow> 'a list" where
  "append_new ks k = (if k \<in> set ks then ks else ks @ [k])"

definition first_order :: "'a list \<Rightarrow> 'a list" where
  "first_order xs = foldl append_new [] xs"

text \<open>
  The pairs (tensor name, step) a rule fetches successfully over a list of notifications,
  in the order of its iteration, and those for which a name-keyed rule reaches the assignment
  of \<^verbatim>\<open>self.tensors[tname][step]\<close>.
\<close>

definition fetched_at :: "rule_class \<Rightarrow> int \<times> trial \<Rightarrow> string \<Rightarrow> (string \<times> int) list" where
  "fetched_at c nt tname =
     (if kept (excluded_of c) tname
      then (case tensor_value (snd nt) tname (fst nt) of
              Inl e \<Rightarrow> []
            | Inr tensor \<Rightarrow> [(tname, fst nt)])
      else [])"

definition fetched :: "rule_class \<Rightarrow> (int \<times> trial) list \<Rightarrow> (string \<times> int) list" where
  "fetched c trace =
     concat (map (\<lambda>nt. concat (map (fetched_at c nt) (tensor_names (snd nt) (regex_of c)))) trace)"

definition stored_at :: "name_class \<Rightarrow> int \<times> trial \<Rightarrow> string \<Rightarrow> (string \<times> int) list" where
  "stored_at c nt tname =
     (if kept (excluded_of (NameKeyed c)) tname
      then (case tensor_value (snd nt) tname (fst nt) of
              Inl e \<Rightarrow> []
            | Inr tensor \<Rightarrow>
                (case stored_value c None tensor of None \<Rightarrow> [] | Some v \<Rightarrow> [(tname, fst nt)]))
      else [])"

definition stored :: "name_class \<Rightarrow> (int \<times> trial) list \<Rightarrow> (string \<times> int) list" where
  "stored c trace =
     concat (map (\<lambda>nt. concat (map (stored_at c nt)
                                  (tensor_names (snd nt) (regex_of (NameKeyed c))))) trace)"

text \<open>Whether the keys of \<^verbatim>\<open>rule.tensors\<close> are tensor names.\<close>

fun keyed_by_name :: "tensors_dict \<Rightarrow> bool" where
  "keyed_by_name (ByName m) = True"
| "keyed_by_name (ByStep m) = False"

section \<open>Dictionaries\<close>

lemma dict_has_set: "dict_has (dict_set d k v) k' = (k' = k \<or> dict_has d k')"
  by (simp add: dict_has_def dict_set_def update_conv')

lemma map_of_dict_set: "map_of (dict_set d k v) = (map_of d)(k \<mapsto> v)"
  by (simp add: dict_set_def update_conv')

lemma dict_set_twice: "dict_set (dict_set d k v) k v' = dict_set d k v'"
  by (simp add: dict_set_def)

lemma dict_set_same: "map_of d k = Some v \<Longrightarrow> dict_set d k v = d"
  by (simp add: dict_set_def update_triv)

lemma variance_try_fetched:
  assumes "tensor_value trial tname step = Inr tensor"
  shows "tensors (except_warning tname (variance_try trial step tname st)) =
         dict_set (tensors st) step (minmax_pass (pair_at (tensors st) step) (np_var (flatten tensor)))"
proof (cases "map_of (tensors st) step")
  case None
  then show ?thesis using assms
    by (simp add: variance_try_def except_warning_def dict_has_def pair_at_def map_of_dict_set
        info_def dict_set_twice dict_set_same Let_def)
next
  case (Some p)
  obtain lo hi where p: "p = (lo, hi)" by (cases p)
  show ?thesis using assms Some p
    by (simp add: variance_try_def except_warning_def dict_has_def pair_at_def
        info_def dict_set_same Let_def)
qed

lemma variance_try_failed:
  assumes "tensor_value trial tname step = Inl e"
  shows "except_warning tname (variance_try trial step tname st) = st\<lparr>logger := logger st @ [Warning tname]\<rparr>"
  using assms by (simp add: variance_try_def except_warning_def)

lemma pair_at_dict_set: "pair_at (dict_set m step p) step = p"
  by (simp add: pair_at_def map_of_dict_set)

lemma variance_loop:
  "tensors (foldl (\<lambda>s tname. if kept None tname
                       then except_warning tname (variance_try trial step tname s) else s) st names) =
   foldl (\<lambda>ts v. dict_set ts step (minmax_pass (pair_at ts step) v)) (tensors st)
     (concat (map (\<lambda>tname. case tensor_value trial tname step of
                             Inl e \<Rightarrow> [] | Inr tensor \<Rightarrow> [np_var (flatten tensor)]) names))"
proof (induction names arbitrary: st)
  case Nil
  show ?case by simp
next
  case (Cons n ns)
  show ?case
  proof (cases "tensor_value trial n step")
    case (Inl e)
    then show ?thesis
      using Cons.IH [of "st\<lparr>logger := logger st @ [Warning n]\<rparr>"]
      by (simp add: kept_def variance_try_failed)
  next
    case (Inr t)
    then show ?thesis
      using Cons.IH [of "except_warning n (variance_try trial step n st)"]
      by (simp add: kept_def variance_try_fetched [OF Inr])
  qed
qed

lemma minmax_fold:
  "vs \<noteq> [] \<Longrightarrow>
   foldl (\<lambda>ts v. dict_set ts step (minmax_pass (pair_at ts step) v)) ts vs =
   dict_set ts step (foldl minmax_pass (pair_at ts step) vs)"
proof (induction vs arbitrary: ts)
  case Nil
  then show ?case by simp
next
  case (Cons v vs)
  show ?case
  proof (cases "vs = []")
    case True
    then show ?thesis by simp
  next
    case False
    then show ?thesis
      using Cons.IH [of "dict_set ts step (minmax_pass (pair_at ts step) v)"]
      by (simp add: pair_at_dict_set dict_set_twice)
  qed
qed

lemma GradientsAcrossLayers_pair:
  assumes "fetched_variances trial step \<noteq> []"
  shows "map_of (tensors (fst (GradientsAcrossLayers_invoke_at_step trial step st))) step =
         Some (foldl minmax_pass (pair_at (tensors st) step) (fetched_variances trial step))"
proof -
  have "tensors (fst (GradientsAcrossLayers_invoke_at_step trial step st)) =
        foldl (\<lambda>ts v. dict_set ts step (minmax_pass (pair_at ts step) v)) (tensors st)
          (fetched_variances trial step)"
    by (simp add: GradientsAcrossLayers_invoke_at_step_def for_tensor_names_def
        fetched_variances_def variance_loop)
  then show ?thesis
    using assms by (simp add: minmax_fold map_of_dict_set)
qed

section \<open>The try blocks of the name-keyed rules\<close>

lemma dict_has_iff: "dict_has d k = (\<exists>v. map_of d k = Some v)"
  by (simp add: dict_has_def)

lemma activation_try_failed:
  assumes "tensor_value trial tname step = Inl e"
  shows "except_warning tname (activation_try trial step tname st) =
         st\<lparr>logger := logger st @ [Warning tname]\<rparr>"
  using assms by (simp add: activation_try_def except_warning_def)

lemma store_try_failed:
  assumes "tensor_value trial tname step = Inl e"
  shows "except_warning tname (store_try log_args trial step tname st) =
         st\<lparr>logger := logger st @ [Warning tname]\<rparr>"
  using assms by (simp add: store_try_def except_warning_def)

lemma tensors_except_warning: "tensors (except_warning tname r) = tensors (fst r)"
  by (cases r) (simp add: except_warning_def split: option.splits)

lemma nested_set_absent:
  "map_of m tname = None \<Longrightarrow> nested_set m tname step v = dict_set m tname [(step, v)]"
  by (simp add: nested_set_def inner_of_def dict_set_def)

lemma nested_set_present:
  "map_of m tname = Some d \<Longrightarrow> nested_set m tname step v = dict_set m tname (dict_set d step v)"
  by (simp add: nested_set_def inner_of_def)

lemma activation_try_fetched:
  assumes "tensor_value trial tname step = Inr tensor"
  shows "tensors (fst (activation_try trial step tname st)) =
         nested_set (tensors st) tname step
           (activation_value (value_at (tensors st) tname step) tensor)"
proof (cases "map_of (tensors st) tname")
  case None
  then show ?thesis using assms
    by (simp add: activation_try_def dict_has_def map_of_dict_set Let_def info_def
        nested_set_absent value_at_def activation_value_def dict_set_twice
        split: sum.splits option.splits)
      (simp_all add: dict_set_def)
next
  case (Some d)
  show ?thesis
  proof (cases "map_of d step")
    case None
    then show ?thesis using assms Some
      by (simp add: activation_try_def dict_has_def map_of_dict_set Let_def info_def
          nested_set_present value_at_def activation_value_def dict_set_twice
          split: sum.splits option.splits)
  next
    case (Some acc)
    then show ?thesis using assms \<open>map_of (tensors st) tname = Some d\<close>
      by (simp add: activation_try_def dict_has_def map_of_dict_set Let_def info_def
          nested_set_present value_at_def activation_value_def dict_set_twice dict_set_same
          split: sum.splits option.splits)
  qed
qed

lemma store_try_fetched:
  assumes "tensor_value trial tname step = Inr tensor"
  shows "tensors (fst (store_try log_args trial step tname st)) =
         (if log_args tensor = None then nested_set (tensors st) tname step (Np tensor)
          else ensure_name (tensors st) tname)"
proof (cases "map_of (tensors st) tname")
  case None
  then show ?thesis using assms
    by (simp add: store_try_def dict_has_def map_of_dict_set Let_def info_def
        nested_set_absent ensure_name_def dict_set_twice split: option.splits)
      (simp add: dict_set_def)
next
  case (Some d)
  then show ?thesis using assms
    by (simp add: store_try_def dict_has_def Let_def info_def
        nested_set_present ensure_name_def split: option.splits)
qed

lemma try_block_tensors:
  "tensors (except_warning tname (try_block_of c trial step tname st)) =
   (case tensor_value trial tname step of
      Inl e \<Rightarrow> tensors st
    | Inr tensor \<Rightarrow> apply_fetch c (tensors st) tname step tensor)"
proof (cases "tensor_value trial tname step")
  case (Inl e)
  then show ?thesis
    by (cases c) (simp_all add: activation_try_failed store_try_failed)
next
  case (Inr tensor)
  then show ?thesis
    by (cases c)
      (simp_all add: tensors_except_warning activation_try_fetched store_try_fetched
        apply_fetch_def variance_args_def)
qed

section \<open>Iteration over names and steps\<close>

lemma name_invoke_at_step_eq:
  "name_invoke_at_step c trial step st =
   (for_tensor_names (regex_of (NameKeyed c)) (excluded_of (NameKeyed c)) (try_block_of c)
      trial step st, False)"
  by (cases c)
    (simp_all add: ActivationOutputs_invoke_at_step_def ActivationInputs_invoke_at_step_def
      GradientsLayer_invoke_at_step_def WeightRatio_invoke_at_step_def
      Inputs_invoke_at_step_def Outputs_invoke_at_step_def)

lemma name_loop_tensors:
  "tensors (foldl (\<lambda>s tname. if kept (excluded_of (NameKeyed c)) tname
                       then except_warning tname (try_block_of c trial step tname s) else s)
              st names) =
   foldl (name_tensors c trial step) (tensors st) names"
proof (induction names arbitrary: st)
  case Nil
  show ?case by simp
next
  case (Cons n ns)
  show ?case
    by (simp add: Cons.IH name_tensors_def try_block_tensors)
qed

lemma name_invoke_tensors:
  "tensors (fst (name_invoke_at_step c trial step st)) = step_tensors c (tensors st) (step, trial)"
  by (simp add: name_invoke_at_step_eq for_tensor_names_def name_loop_tensors step_tensors_def)

lemma invoke_rule_fst:
  "fst (invoke_rule step_fn trace final st) = foldl (\<lambda>s note. fst (step_fn (snd note) (fst note) s)) st trace"
  by (induction step_fn trace final st rule: invoke_rule.induct) simp_all

lemma invoke_rule_snd: "snd (invoke_rule step_fn trace final st) = final"
  by (induction step_fn trace final st rule: invoke_rule.induct) simp_all

lemma run_cell_fst:
  "fst (run_cell step_fn trace final) =
   foldl (\<lambda>s note. fst (step_fn (snd note) (fst note) s)) new_rule trace"
  using invoke_rule_fst [of step_fn trace final new_rule]
  by (cases "invoke_rule step_fn trace final new_rule") (simp add: run_cell_def)

lemma name_run_tensors:
  "tensors (foldl (\<lambda>s note. fst (name_invoke_at_step c (snd note) (fst note) s)) st trace) =
   foldl (step_tensors c) (tensors st) trace"
  by (induction trace arbitrary: st) (simp_all add: name_invoke_tensors)

lemma rule_tensors_name: "rule_tensors (NameKeyed c) trace = ByName (run_tensors c trace)"
  by (simp add: run_cell_fst name_run_tensors run_tensors_def new_rule_def)

lemma run_tensors_snoc:
  "run_tensors c (trace @ [note]) = step_tensors c (run_tensors c trace) note"
  by (simp add: run_tensors_def)

section \<open>Entries of the nested dict\<close>

lemma value_at_nested_set:
  "value_at (nested_set m n s v) n' s' =
   (if n' = n \<and> s' = s then Some v else value_at m n' s')"
  by (simp add: value_at_def nested_set_def inner_of_def map_of_dict_set split: option.splits)

lemma value_at_ensure_name: "value_at (ensure_name m n) n' s' = value_at m n' s'"
  by (simp add: value_at_def ensure_name_def dict_has_def map_of_dict_set split: option.splits)

lemma name_step_in_iff: "name_step_in m n s = (value_at m n s \<noteq> None)"
  by (simp add: name_step_in_def value_at_def dict_has_def split: option.splits)

lemma dict_has_nested_set: "dict_has (nested_set m n s v) n' = (n' = n \<or> dict_has m n')"
  by (simp add: nested_set_def dict_has_set)

lemma dict_has_ensure_name: "dict_has (ensure_name m n) n' = (n' = n \<or> dict_has m n')"
  by (auto simp add: ensure_name_def dict_has_set)

lemma value_at_apply_fetch:
  "value_at (apply_fetch c m n s t) n' s' =
   (if n' = n \<and> s' = s
    then (case stored_value c (value_at m n s) t of None \<Rightarrow> value_at m n s | Some v \<Rightarrow> Some v)
    else value_at m n' s')"
  by (simp add: apply_fetch_def value_at_nested_set value_at_ensure_name split: option.splits)

lemma dict_has_apply_fetch: "dict_has (apply_fetch c m n s t) n' = (n' = n \<or> dict_has m n')"
  by (simp add: apply_fetch_def dict_has_nested_set dict_has_ensure_name split: option.splits)

lemma value_at_name_tensors_other:
  "n' \<noteq> n \<or> s' \<noteq> step \<Longrightarrow> value_at (name_tensors c trial step m n) n' s' = value_at m n' s'"
  by (auto simp add: name_tensors_def value_at_apply_fetch split: sum.splits)

lemma name_step_in_name_tensors:
  "name_step_in m n' s' \<Longrightarrow> name_step_in (name_tensors c trial step m n) n' s'"
  by (auto simp add: name_step_in_iff name_tensors_def value_at_apply_fetch
      split: sum.splits option.splits)

lemma dict_has_name_tensors:
  "dict_has (name_tensors c trial step m n) n' \<Longrightarrow>
   dict_has m n' \<or> (n' = n \<and> kept (excluded_of (NameKeyed c)) n)"
  by (auto simp add: name_tensors_def dict_has_apply_fetch split: sum.splits if_splits)

lemma name_step_in_foldl:
  "name_step_in m n' s' \<Longrightarrow> name_step_in (foldl (name_tensors c trial step) m names) n' s'"
  by (induction names arbitrary: m) (simp_all add: name_step_in_name_tensors)

lemma name_step_in_step_tensors:
  "name_step_in m n' s' \<Longrightarrow> name_step_in (step_tensors c m note) n' s'"
  by (simp add: step_tensors_def name_step_in_foldl)

lemma name_step_in_run:
  "name_step_in m n' s' \<Longrightarrow> name_step_in (foldl (step_tensors c) m trace) n' s'"
  by (induction trace arbitrary: m) (simp_all add: name_step_in_step_tensors)

lemma range_args_None: "(range_args t = None) = (data t \<noteq> [])"
  by (simp add: range_args_def np_min_def np_max_def split: list.splits)

lemma stored_value_Some:
  "c = GradientsLayer \<longrightarrow> data t \<noteq> [] \<Longrightarrow> \<exists>v. stored_value c old t = Some v"
  by (cases c) (simp_all add: range_args_None)

lemma name_tensors_fetched:
  assumes "kept (excluded_of (NameKeyed c)) n" "tensor_value trial n step = Inr t"
    "c = GradientsLayer \<longrightarrow> data t \<noteq> []"
  shows "name_step_in (name_tensors c trial step m n) n step"
proof -
  obtain v where "stored_value c (value_at m n step) t = Some v"
    using stored_value_Some [OF assms(3)] by blast
  then show ?thesis
    using assms(1,2) by (simp add: name_tensors_def name_step_in_iff value_at_apply_fetch)
qed

lemma step_tensors_fetched:
  assumes "n \<in> set (tensor_names trial (regex_of (NameKeyed c)))"
    "kept (excluded_of (NameKeyed c)) n" "tensor_value trial n step = Inr t"
    "c = GradientsLayer \<longrightarrow> data t \<noteq> []"
  shows "name_step_in (step_tensors c m (step, trial)) n step"
proof -
  obtain xs ys where names: "tensor_names trial (regex_of (NameKeyed c)) = xs @ n # ys"
    using assms(1) by (meson split_list)
  show ?thesis
    by (simp add: step_tensors_def names name_step_in_foldl name_tensors_fetched [OF assms(2-4)])
qed

section \<open>The dict keyed by step\<close>

lemma variance_invoke_tensors:
  "tensors (fst (GradientsAcrossLayers_invoke_at_step trial step st)) =
   variance_tensors (tensors st) (step, trial)"
  by (simp add: GradientsAcrossLayers_invoke_at_step_def for_tensor_names_def
      fetched_variances_def variance_loop variance_tensors_def)

lemma variance_run_tensors:
  "tensors (foldl (\<lambda>s note. fst (GradientsAcrossLayers_invoke_at_step (snd note) (fst note) s))
              st trace) =
   foldl variance_tensors (tensors st) trace"
  by (induction trace arbitrary: st) (simp_all add: variance_invoke_tensors)

lemma rule_tensors_step:
  "rule_tensors GradientsAcrossLayers trace = ByStep (foldl variance_tensors [] trace)"
  by (simp add: run_cell_fst variance_run_tensors new_rule_def)

lemma variance_tensors_eq:
  "variance_tensors m (step, trial) =
   (if fetched_variances trial step = [] then m
    else dict_set m step (foldl minmax_pass (pair_at m step) (fetched_variances trial step)))"
  by (simp add: variance_tensors_def minmax_fold)

lemma fetched_variances_nonempty:
  assumes "n \<in> set (tensor_names trial ''.*gradient'')" "tensor_value trial n step = Inr t"
  shows "fetched_variances trial step \<noteq> []"
proof -
  obtain xs ys where "tensor_names trial ''.*gradient'' = xs @ n # ys"
    using assms(1) by (meson split_list)
  then show ?thesis
    using assms(2) by (simp add: fetched_variances_def)
qed

lemma dict_has_variance_tensors:
  "dict_has (variance_tensors m note) s = (dict_has m s \<or> (s = fst note \<and> fetched_variances (snd note) (fst note) \<noteq> []))"
  by (cases "note") (auto simp add: variance_tensors_eq dict_has_set)

section \<open>Names in the dict\<close>

lemma name_step_in_dict_has: "name_step_in m n s \<Longrightarrow> dict_has m n"
  by (simp add: name_step_in_def dict_has_def split: option.splits)

lemma dict_has_foldl_names:
  "dict_has (foldl (name_tensors c trial step) m names) n' \<Longrightarrow>
   dict_has m n' \<or> (n' \<in> set names \<and> kept (excluded_of (NameKeyed c)) n')"
proof (induction names arbitrary: m)
  case Nil
  then show ?case by simp
next
  case (Cons n ns)
  from Cons.IH [OF Cons.prems [simplified]]
  show ?case using dict_has_name_tensors [of c trial step m n n'] by auto
qed

lemma dict_has_step_tensors:
  "dict_has (step_tensors c m note) n' \<Longrightarrow>
   dict_has m n' \<or> (n' \<in> set (tensor_names (snd note) (regex_of (NameKeyed c))) \<and>
     kept (excluded_of (NameKeyed c)) n')"
  unfolding step_tensors_def by (rule dict_has_foldl_names)

lemma dict_has_run:
  "dict_has (foldl (step_tensors c) m trace) n' \<Longrightarrow>
   dict_has m n' \<or> ((\<exists>note \<in> set trace. n' \<in> set (tensor_names (snd note) (regex_of (NameKeyed c)))) \<and>
     kept (excluded_of (NameKeyed c)) n')"
proof (induction trace arbitrary: m)
  case Nil
  then show ?case by simp
next
  case (Cons nt rest)
  from Cons.IH [OF Cons.prems [simplified]]
  show ?case using dict_has_step_tensors [of c m nt n'] by auto
qed

section \<open>Failed fetches\<close>

lemma foldl_filter_skip:
  assumes "\<And>m x. x \<in> set xs \<Longrightarrow> \<not> P x \<Longrightarrow> f m x = m"
  shows "foldl f m (filter P xs) = foldl f m xs"
  using assms by (induction xs arbitrary: m) simp_all

lemma concat_map_filter_skip:
  assumes "\<And>x. x \<in> set xs \<Longrightarrow> \<not> P x \<Longrightarrow> g x = []"
  shows "concat (map g (filter P xs)) = concat (map g xs)"
  using assms by (induction xs) simp_all

lemma name_tensors_drop_failed:
  "name_tensors c (snd (drop_failed note)) (fst (drop_failed note)) =
   name_tensors c (snd note) (fst note)"
  by (simp add: drop_failed_def name_tensors_def fun_eq_iff)

lemma step_tensors_drop_failed: "step_tensors c m (drop_failed note) = step_tensors c m note"
proof -
  have "foldl (name_tensors c (snd note) (fst note)) m
          (filter (\<lambda>tname. case tensor_value (snd note) tname (fst note) of
                              Inl e \<Rightarrow> False | Inr tensor \<Rightarrow> True)
             (tensor_names (snd note) (regex_of (NameKeyed c)))) =
        foldl (name_tensors c (snd note) (fst note)) m
          (tensor_names (snd note) (regex_of (NameKeyed c)))"
    by (rule foldl_filter_skip) (simp add: name_tensors_def split: sum.splits)
  then show ?thesis
    unfolding step_tensors_def name_tensors_drop_failed
    by (simp add: drop_failed_def)
qed

lemma fetched_variances_drop_failed:
  "fetched_variances (snd (drop_failed note)) (fst (drop_failed note)) =
   fetched_variances (snd note) (fst note)"
  unfolding fetched_variances_def
  by (simp add: drop_failed_def) (rule concat_map_filter_skip, simp split: sum.splits)

lemma variance_tensors_drop_failed: "variance_tensors m (drop_failed note) = variance_tensors m note"
  unfolding variance_tensors_def fetched_variances_drop_failed
  by (simp add: drop_failed_def)

lemma run_tensors_drop_failed: "run_tensors c (map drop_failed trace) = run_tensors c trace"
proof -
  have "foldl (step_tensors c) m (map drop_failed trace) = foldl (step_tensors c) m trace" for m
    by (induction trace arbitrary: m) (simp_all add: step_tensors_drop_failed)
  then show ?thesis by (simp add: run_tensors_def)
qed

lemma variance_run_drop_failed:
  "foldl variance_tensors m (map drop_failed trace) = foldl variance_tensors m trace"
  by (induction trace arbitrary: m) (simp_all add: variance_tensors_drop_failed)

lemma rule_tensors_drop_failed: "rule_tensors c (map drop_failed trace) = rule_tensors c trace"
proof (cases c)
  case (NameKeyed nc)
  then show ?thesis by (simp only: rule_tensors_name run_tensors_drop_failed)
next
  case GradientsAcrossLayers
  then show ?thesis by (simp only: rule_tensors_step variance_run_drop_failed)
qed

section \<open>The log\<close>

lemma logger_activation_try:
  "set (logger st) \<subseteq> set (logger (fst (activation_try trial step tname st)))"
proof (cases "tensor_value trial tname step")
  case (Inl e)
  then show ?thesis by (simp add: activation_try_def)
next
  case (Inr tensor)
  let ?ts1 = "if \<not> dict_has (tensors st) tname then dict_set (tensors st) tname []
              else tensors st"
  show ?thesis
  proof (cases "map_of ?ts1 tname")
    case None
    then show ?thesis using Inr by (simp add: activation_try_def)
  next
    case (Some d)
    let ?d1 = "if \<not> dict_has d step then dict_set d step (PyInt 0) else d"
    show ?thesis
    proof (cases "batch_over_sum tensor")
      case (Inl e)
      then show ?thesis using Inr Some
        by (simp add: activation_try_def Let_def info_def subset_insertI)
    next
      case x: (Inr x)
      show ?thesis
      proof (cases "map_of ?d1 step")
        case None
        then show ?thesis using Inr Some x
          by (simp add: activation_try_def Let_def info_def subset_insertI)
      next
        case acc: (Some acc)
        then show ?thesis using Inr Some x
          by (cases "py_iadd acc x")
            (simp_all add: activation_try_def Let_def info_def subset_insertI)
      qed
    qed
  qed
qed

lemma logger_store_try:
  "set (logger st) \<subseteq> set (logger (fst (store_try log_args trial step tname st)))"
proof (cases "tensor_value trial tname step")
  case (Inl e)
  then show ?thesis by (simp add: store_try_def)
next
  case (Inr tensor)
  let ?st1 = "if \<not> dict_has (tensors st) tname
              then st\<lparr>tensors := dict_set (tensors st) tname []\<rparr> else st"
  have l1: "logger ?st1 = logger st" by simp
  show ?thesis
  proof (cases "log_args tensor")
    case (Some e)
    then show ?thesis using Inr l1 by (simp add: store_try_def Let_def)
  next
    case None
    then show ?thesis using Inr l1
      by (cases "map_of (tensors (info ?st1)) tname")
        (simp_all add: store_try_def Let_def info_def subset_insertI)
  qed
qed

lemma logger_variance_try:
  "set (logger st) \<subseteq> set (logger (fst (variance_try trial step tname st)))"
proof (cases "tensor_value trial tname step")
  case (Inl e)
  then show ?thesis by (simp add: variance_try_def)
next
  case (Inr tensor)
  let ?ts1 = "if \<not> dict_has (tensors st) step then dict_set (tensors st) step (PInf, Fin 0)
              else tensors st"
  show ?thesis
  proof (cases "map_of ?ts1 step")
    case None
    then show ?thesis using Inr by (simp add: variance_try_def)
  next
    case (Some p)
    then show ?thesis using Inr
      by (cases p) (simp add: variance_try_def Let_def info_def subset_insertI)
  qed
qed

lemma logger_except_warning: "set (logger (fst r)) \<subseteq> set (logger (except_warning tname r))"
  by (cases r) (auto simp add: except_warning_def split: option.splits)

lemma logger_try_block_of:
  "set (logger st) \<subseteq> set (logger (except_warning tname (try_block_of c trial step tname st)))"
  using logger_except_warning [of "try_block_of c trial step tname st" tname]
    logger_activation_try [of st trial step tname]
    logger_store_try [of st _ trial step tname]
  by (cases c) auto

lemma logger_variance_block:
  "set (logger st) \<subseteq> set (logger (except_warning tname (variance_try trial step tname st)))"
  using logger_except_warning [of "variance_try trial step tname st" tname]
    logger_variance_try [of st trial step tname]
  by auto

lemma try_block_of_failed:
  "tensor_value trial tname step = Inl e \<Longrightarrow>
   Warning tname \<in> set (logger (except_warning tname (try_block_of c trial step tname st)))"
  by (cases c) (simp_all add: activation_try_failed store_try_failed)

lemma foldl_logger:
  assumes "\<And>s x. set (logger s) \<subseteq> set (logger (f s x))"
  shows "set (logger s) \<subseteq> set (logger (foldl f s xs))"
proof (induction xs arbitrary: s)
  case Nil
  show ?case by simp
next
  case (Cons x xs)
  have "set (logger s) \<subseteq> set (logger (f s x))" by (rule assms)
  also have "\<dots> \<subseteq> set (logger (foldl f (f s x) xs))" by (rule Cons.IH)
  finally show ?case by simp
qed

lemma for_tensor_names_logger:
  assumes "\<And>n s. set (logger s) \<subseteq> set (logger (except_warning n (tb trial step n s)))"
  shows "set (logger st) \<subseteq> set (logger (for_tensor_names regex ex tb trial step st))"
  unfolding for_tensor_names_def
  by (rule foldl_logger) (simp add: assms)

lemma for_tensor_names_warning:
  assumes grow: "\<And>n s. set (logger s) \<subseteq> set (logger (except_warning n (tb trial step n s)))"
    and fail: "\<And>s. Warning tname \<in> set (logger (except_warning tname (tb trial step tname s)))"
    and "tname \<in> set (tensor_names trial regex)" "kept ex tname"
  shows "Warning tname \<in> set (logger (for_tensor_names regex ex tb trial step st))"
proof -
  let ?body = "\<lambda>s n. if kept ex n then except_warning n (tb trial step n s) else s"
  obtain xs ys where names: "tensor_names trial regex = xs @ tname # ys"
    using assms(3) by (meson split_list)
  have keep: "set (logger s) \<subseteq> set (logger (foldl ?body s zs))" for s zs
    by (rule foldl_logger) (simp add: grow)
  have "Warning tname \<in> set (logger (?body (foldl ?body st xs) tname))"
    using fail assms(4) by simp
  then have "Warning tname \<in> set (logger (foldl ?body (?body (foldl ?body st xs) tname) ys))"
    using keep by blast
  then show ?thesis by (simp add: for_tensor_names_def names)
qed

lemma run_logger:
  assumes grow: "\<And>trial step s. set (logger s) \<subseteq> set (logger (fst (step_fn trial step s)))"
    and here: "\<And>s. x \<in> set (logger (fst (step_fn trial step s)))"
    and "(step, trial) \<in> set trace"
  shows "x \<in> set (logger (foldl (\<lambda>s nt. fst (step_fn (snd nt) (fst nt) s)) st trace))"
proof -
  let ?body = "\<lambda>s nt. fst (step_fn (snd nt) (fst nt) s)"
  obtain xs ys where tr: "trace = xs @ (step, trial) # ys"
    using assms(3) by (meson split_list)
  have keep: "set (logger s) \<subseteq> set (logger (foldl ?body s zs))" for s zs
    by (rule foldl_logger) (simp add: grow)
  have "x \<in> set (logger (?body (foldl ?body st xs) (step, trial)))"
    using here by simp
  then have "x \<in> set (logger (foldl ?body (?body (foldl ?body st xs) (step, trial)) ys))"
    using keep by blast
  then show ?thesis by (simp add: tr)
qed

lemma rule_log_warning:
  assumes "(step, trial) \<in> set trace"
    and "tname \<in> set (tensor_names trial (regex_of c))"
    and "kept (excluded_of c) tname"
    and "tensor_value trial tname step = Inl e"
  shows "Warning tname \<in> set (rule_log c trace)"
proof (cases c)
  case (NameKeyed nc)
  have grow: "set (logger s) \<subseteq> set (logger (fst (name_invoke_at_step nc t k s)))" for t k s
    by (simp add: name_invoke_at_step_eq for_tensor_names_logger logger_try_block_of)
  have here: "Warning tname \<in> set (logger (fst (name_invoke_at_step nc trial step s)))" for s
  proof -
    have "Warning tname \<in> set (logger (for_tensor_names (regex_of (NameKeyed nc))
            (excluded_of (NameKeyed nc)) (try_block_of nc) trial step s))"
    proof (rule for_tensor_names_warning)
      show "set (logger s') \<subseteq> set (logger (except_warning n (try_block_of nc trial step n s')))"
        for n s'
        by (rule logger_try_block_of)
      show "Warning tname \<in> set (logger (except_warning tname (try_block_of nc trial step tname s')))"
        for s'
        by (rule try_block_of_failed [OF assms(4)])
      show "tname \<in> set (tensor_names trial (regex_of (NameKeyed nc)))"
        using assms(2) NameKeyed by simp
      show "kept (excluded_of (NameKeyed nc)) tname"
        using assms(3) NameKeyed by simp
    qed
    then show ?thesis by (simp add: name_invoke_at_step_eq)
  qed
  show ?thesis
    unfolding NameKeyed rule_log.simps run_cell_fst
    by (rule run_logger [where step_fn = "name_invoke_at_step nc", OF grow here assms(1)])
next
  case GradientsAcrossLayers
  have grow: "set (logger s) \<subseteq> set (logger (fst (GradientsAcrossLayers_invoke_at_step t k s)))"
    for t k s
    by (simp add: GradientsAcrossLayers_invoke_at_step_def for_tensor_names_logger
        logger_variance_block)
  have here: "Warning tname \<in> set (logger (fst (GradientsAcrossLayers_invoke_at_step trial step s)))"
    for s
  proof -
    have "Warning tname \<in> set (logger (for_tensor_names ''.*gradient'' None variance_try trial step s))"
    proof (rule for_tensor_names_warning)
      show "set (logger s') \<subseteq> set (logger (except_warning n (variance_try trial step n s')))"
        for n s'
        by (rule logger_variance_block)
      show "Warning tname \<in> set (logger (except_warning tname (variance_try trial step tname s')))"
        for s'
        by (simp add: variance_try_failed [OF assms(4)])
      show "tname \<in> set (tensor_names trial ''.*gradient'')"
        using assms(2) GradientsAcrossLayers by simp
      show "kept None tname"
        by (simp add: kept_def)
    qed
    then show ?thesis by (simp add: GradientsAcrossLayers_invoke_at_step_def)
  qed
  show ?thesis
    unfolding GradientsAcrossLayers rule_log.simps run_cell_fst
    by (rule run_logger [where step_fn = GradientsAcrossLayers_invoke_at_step,
          OF grow here assms(1)])
qed

section \<open>Steps in the dict\<close>

lemma name_step_in_name_tensors_cases:
  "name_step_in (name_tensors c trial step m n) n' s \<Longrightarrow> name_step_in m n' s \<or> s = step"
  by (cases "s = step") (simp_all add: name_step_in_iff value_at_name_tensors_other)

lemma name_step_in_foldl_cases:
  "name_step_in (foldl (name_tensors c trial step) m names) n' s \<Longrightarrow>
   name_step_in m n' s \<or> s = step"
proof (induction names arbitrary: m)
  case Nil
  then show ?case by simp
next
  case (Cons n ns)
  from Cons.IH [OF Cons.prems [simplified]]
  show ?case using name_step_in_name_tensors_cases [of c trial step m n n' s] by auto
qed

lemma name_step_in_run_cases:
  "name_step_in (foldl (step_tensors c) m trace) n' s \<Longrightarrow>
   name_step_in m n' s \<or> s \<in> fst ` set trace"
proof (induction trace arbitrary: m)
  case Nil
  then show ?case by simp
next
  case (Cons nt rest)
  from Cons.IH [OF Cons.prems [simplified]]
  show ?case
    using name_step_in_foldl_cases [of c "snd nt" "fst nt" m _ n' s]
    by (auto simp add: step_tensors_def)
qed

lemma name_step_in_Nil [simp]: "\<not> name_step_in [] n s"
  by (simp add: name_step_in_def)

lemma value_at_foldl_other_step:
  "s \<noteq> step \<Longrightarrow> value_at (foldl (name_tensors c trial step) m names) n' s = value_at m n' s"
  by (induction names arbitrary: m) (simp_all add: value_at_name_tensors_other)

lemma value_at_run_other_steps:
  "s \<notin> fst ` set trace \<Longrightarrow> value_at (foldl (step_tensors c) m trace) n' s = value_at m n' s"
  by (induction trace arbitrary: m) (simp_all add: step_tensors_def value_at_foldl_other_step)

lemma strictly_increasing_split:
  fixes step :: int
  assumes "sorted_wrt (<) (map fst (pre @ (step, trial) # post))"
  shows "step \<notin> fst ` set pre" "step \<notin> fst ` set post"
proof -
  have "\<forall>x \<in> set pre. fst x < step" and "\<forall>x \<in> set post. step < fst x"
    using assms by (simp_all add: sorted_wrt_append)
  have "step \<notin> fst ` set pre"
    using \<open>\<forall>x \<in> set pre. fst x < step\<close> by force
  moreover have "step \<notin> fst ` set post"
    using \<open>\<forall>x \<in> set post. step < fst x\<close> by force
  ultimately show "step \<notin> fst ` set pre" "step \<notin> fst ` set post"
    by blast+
qed

lemma distinct_visits:
  assumes "sorted_wrt (<) (map fst trace)"
    and "\<forall>nt \<in> set trace. distinct (tensor_names (snd nt) (regex_of c))"
  shows "distinct (visits c trace)"
  using assms
proof (induction trace)
  case Nil
  show ?case by (simp add: visits_def entered_def)
next
  case (Cons nt rest)
  have rest: "distinct (visits c rest)"
    using Cons by simp
  have later: "snd p \<noteq> fst nt" if "p \<in> set (visits c rest)" for p
    using that Cons.prems(1) by (auto simp add: visits_def entered_def)
  have here: "distinct (map (\<lambda>tname. (tname, fst nt))
                (filter (kept (excluded_of c)) (tensor_names (snd nt) (regex_of c))))"
    using Cons.prems(2) by (simp add: distinct_map inj_on_def)
  have "visits c (nt # rest) =
        map (\<lambda>tname. (tname, fst nt))
          (filter (kept (excluded_of c)) (tensor_names (snd nt) (regex_of c))) @ visits c rest"
    by (simp add: visits_def entered_def o_def)
  then show ?case
    using rest here later by fastforce
qed

section \<open>Sums over the batch dimension\<close>

lemma fl_add_zero [simp]: "fl_add (Fin 0) v = v"
  by (cases v) simp_all

lemma fl_sum_snoc: "fl_sum (xs @ [x]) = fl_add (fl_sum xs) x"
  by (simp add: fl_sum_def)

lemma rows_Suc: "rows (Suc b) m d = rows b m d @ [take m (drop (b * m) d)]"
  by (simp add: rows_def)

lemma column_sums:
  "b * m \<le> length d \<Longrightarrow>
   foldl (\<lambda>acc row. map2 fl_add acc row) (replicate m (Fin 0)) (rows b m d) =
   map (\<lambda>j. fl_sum (map (\<lambda>i. d ! (i * m + j)) [0..<b])) [0..<m]"
proof (induction b)
  case 0
  show ?case by (simp add: rows_def fl_sum_def map_replicate_trivial)
next
  case (Suc b)
  have le: "b * m \<le> length d" and room: "m \<le> length d - b * m"
    using Suc.prems by simp_all
  have "map2 fl_add (map (\<lambda>j. fl_sum (map (\<lambda>i. d ! (i * m + j)) [0..<b])) [0..<m])
          (take m (drop (b * m) d)) =
        map (\<lambda>j. fl_sum (map (\<lambda>i. d ! (i * m + j)) [0..<Suc b])) [0..<m]"
    using room by (intro nth_equalityI) (simp_all add: fl_sum_snoc)
  then show ?case
    using Suc.IH [OF le] by (simp add: rows_Suc)
qed

lemma batch_over_sum_eq:
  assumes "shape tensor = b # rest" "wf_ndarray tensor"
  shows "batch_over_sum tensor = Inr (batch_mean b rest (data tensor))"
proof -
  have "b * prod_list rest \<le> length (data tensor)"
    using assms by (simp add: wf_ndarray_def)
  then show ?thesis
    using assms(1)
    by (simp add: batch_over_sum_def np_sum_axis0_def shape0_def np_divide_def batch_mean_def
        column_sums)
qed

lemma activation_value_first:
  assumes "shape tensor = b # rest" "wf_ndarray tensor"
  shows "activation_value None tensor = Np (batch_mean b rest (data tensor))"
  by (simp add: activation_value_def batch_over_sum_eq [OF assms] map_idI)

lemma value_at_foldl_other_names:
  "n' \<notin> set names \<Longrightarrow>
   value_at (foldl (name_tensors c trial step) m names) n' s = value_at m n' s"
  by (induction names arbitrary: m) (simp_all add: value_at_name_tensors_other)

lemma name_tensors_activation:
  assumes "c = ActivationOutputs \<or> c = ActivationInputs"
    and "kept (excluded_of (NameKeyed c)) n" "tensor_value trial n step = Inr t"
  shows "value_at (name_tensors c trial step m n) n step =
         Some (activation_value (value_at m n step) t)"
  using assms by (auto simp add: name_tensors_def value_at_apply_fetch)

lemma name_step_in_append:
  "name_step_in (run_tensors c pre) n s \<Longrightarrow> name_step_in (run_tensors c (pre @ post)) n s"
  by (simp add: run_tensors_def name_step_in_run)

lemma dict_has_variance_run:
  "dict_has m s \<Longrightarrow> dict_has (foldl variance_tensors m trace) s"
  by (induction trace arbitrary: m) (simp_all add: dict_has_variance_tensors)

lemma run_cell_snd: "snd (run_cell step_fn trace NoMoreData) = PrintedExpectedEnd"
  using invoke_rule_snd [of step_fn trace NoMoreData new_rule]
  by (cases "invoke_rule step_fn trace NoMoreData new_rule") (simp add: run_cell_def)

section \<open>The order of the keys\<close>

lemma dict_has_keys: "dict_has d k = (k \<in> set (map fst d))"
  by (simp add: dict_has_def map_of_eq_None_iff)

lemma keys_dict_set: "map fst (dict_set d k v) = append_new (map fst d) k"
  by (simp add: dict_set_def update_keys append_new_def)

lemma keys_nested_set: "map fst (nested_set m n s v) = append_new (map fst m) n"
  by (simp add: nested_set_def keys_dict_set)

lemma keys_ensure_name: "map fst (ensure_name m n) = append_new (map fst m) n"
  by (simp add: ensure_name_def keys_dict_set dict_has_keys) (simp add: append_new_def)

lemma inner_of_nested_set:
  "inner_of (nested_set m n s v) n' =
   (if n' = n then dict_set (inner_of m n) s v else inner_of m n')"
  by (simp add: inner_of_def nested_set_def map_of_dict_set)

lemma inner_of_ensure_name: "inner_of (ensure_name m n) n' = inner_of m n'"
  by (simp add: inner_of_def ensure_name_def map_of_dict_set dict_has_def split: option.splits)

lemma stored_value_None: "(stored_value c old t = None) = (stored_value c None t = None)"
  by (cases c) simp_all

lemma keys_apply_fetch: "map fst (apply_fetch c m n s t) = append_new (map fst m) n"
  by (simp add: apply_fetch_def keys_nested_set keys_ensure_name split: option.splits)

lemma inner_keys_apply_fetch:
  "map fst (inner_of (apply_fetch c m n s t) n') =
   (if n' = n \<and> stored_value c None t \<noteq> None then append_new (map fst (inner_of m n)) s
    else map fst (inner_of m n'))"
proof (cases "stored_value c (value_at m n s) t")
  case None
  then show ?thesis
    using stored_value_None [of c "value_at m n s" t]
    by (simp add: apply_fetch_def inner_of_ensure_name)
next
  case (Some v)
  then show ?thesis
    using stored_value_None [of c "value_at m n s" t]
    by (simp add: apply_fetch_def inner_of_nested_set keys_dict_set)
qed

lemma keys_name_tensors:
  "map fst (name_tensors c trial step m n) =
   foldl append_new (map fst m) (map fst (fetched_at (NameKeyed c) (step, trial) n))"
  by (simp add: name_tensors_def fetched_at_def keys_apply_fetch split: sum.splits)

lemma inner_keys_name_tensors:
  "map fst (inner_of (name_tensors c trial step m n) n') =
   foldl append_new (map fst (inner_of m n'))
     (map snd (filter (\<lambda>p. fst p = n') (stored_at c (step, trial) n)))"
proof (cases "kept (excluded_of (NameKeyed c)) n")
  case False
  then show ?thesis by (simp add: name_tensors_def stored_at_def)
next
  case True
  show ?thesis
  proof (cases "tensor_value trial n step")
    case (Inl e)
    then show ?thesis using True by (simp add: name_tensors_def stored_at_def)
  next
    case (Inr t)
    then show ?thesis using True
      by (cases "stored_value c None t")
        (simp_all add: name_tensors_def stored_at_def inner_keys_apply_fetch)
  qed
qed

lemma keys_foldl_names:
  "map fst (foldl (name_tensors c trial step) m names) =
   foldl append_new (map fst m)
     (map fst (concat (map (fetched_at (NameKeyed c) (step, trial)) names)))"
  by (induction names arbitrary: m) (simp_all add: keys_name_tensors)

lemma inner_keys_foldl_names:
  "map fst (inner_of (foldl (name_tensors c trial step) m names) n') =
   foldl append_new (map fst (inner_of m n'))
     (map snd (filter (\<lambda>p. fst p = n') (concat (map (stored_at c (step, trial)) names))))"
  by (induction names arbitrary: m) (simp_all add: inner_keys_name_tensors)

lemma keys_step_tensors:
  "map fst (step_tensors c m nt) =
   foldl append_new (map fst m)
     (map fst (concat (map (fetched_at (NameKeyed c) nt)
                         (tensor_names (snd nt) (regex_of (NameKeyed c))))))"
  using keys_foldl_names [of c "snd nt" "fst nt" m]
  by (simp add: step_tensors_def)

lemma inner_keys_step_tensors:
  "map fst (inner_of (step_tensors c m nt) n') =
   foldl append_new (map fst (inner_of m n'))
     (map snd (filter (\<lambda>p. fst p = n')
        (concat (map (stored_at c nt) (tensor_names (snd nt) (regex_of (NameKeyed c)))))))"
  using inner_keys_foldl_names [of c "snd nt" "fst nt" m]
  by (simp add: step_tensors_def)

lemma keys_run:
  "map fst (foldl (step_tensors c) m trace) =
   foldl append_new (map fst m) (map fst (fetched (NameKeyed c) trace))"
proof (induction trace arbitrary: m)
  case Nil
  show ?case by (simp add: fetched_def)
next
  case (Cons nt rest)
  have "fetched (NameKeyed c) (nt # rest) =
        concat (map (fetched_at (NameKeyed c) nt)
                  (tensor_names (snd nt) (regex_of (NameKeyed c)))) @
        fetched (NameKeyed c) rest"
    by (simp add: fetched_def)
  then show ?case
    by (simp add: Cons.IH keys_step_tensors)
qed

lemma inner_keys_run:
  "map fst (inner_of (foldl (step_tensors c) m trace) n') =
   foldl append_new (map fst (inner_of m n'))
     (map snd (filter (\<lambda>p. fst p = n') (stored c trace)))"
proof (induction trace arbitrary: m)
  case Nil
  show ?case by (simp add: stored_def)
next
  case (Cons nt rest)
  have "stored c (nt # rest) =
        concat (map (stored_at c nt) (tensor_names (snd nt) (regex_of (NameKeyed c)))) @
        stored c rest"
    by (simp add: stored_def)
  then show ?case
    by (simp add: Cons.IH inner_keys_step_tensors)
qed

lemma append_new_idem: "append_new (append_new ks k) k = append_new ks k"
  by (simp add: append_new_def)

lemma foldl_append_new_replicate:
  "foldl append_new ks (replicate k x) = (if k = 0 then ks else append_new ks x)"
proof (induction k arbitrary: ks)
  case 0
  show ?case by simp
next
  case (Suc k)
  show ?case by (simp add: Suc.IH append_new_idem)
qed

lemma fetched_steps_gradient:
  "map snd (concat (map (fetched_at GradientsAcrossLayers (step, trial)) names)) =
   replicate (length (concat (map (\<lambda>tname. case tensor_value trial tname step of
                             Inl e \<Rightarrow> [] | Inr tensor \<Rightarrow> [np_var (flatten tensor)]) names)))
     step"
  by (induction names) (simp_all add: fetched_at_def kept_def split: sum.splits)

lemma keys_variance_tensors:
  "map fst (variance_tensors m nt) =
   foldl append_new (map fst m)
     (map snd (concat (map (fetched_at GradientsAcrossLayers nt)
                         (tensor_names (snd nt) ''.*gradient''))))"
proof -
  obtain step trial where nt: "nt = (step, trial)" by (cases nt)
  show ?thesis
    unfolding nt fetched_steps_gradient
    by (simp add: variance_tensors_eq foldl_append_new_replicate keys_dict_set
        fetched_variances_def)
qed

lemma keys_variance_run:
  "map fst (foldl variance_tensors m trace) =
   foldl append_new (map fst m) (map snd (fetched GradientsAcrossLayers trace))"
proof (induction trace arbitrary: m)
  case Nil
  show ?case by (simp add: fetched_def)
next
  case (Cons nt rest)
  have "fetched GradientsAcrossLayers (nt # rest) =
        concat (map (fetched_at GradientsAcrossLayers nt) (tensor_names (snd nt) ''.*gradient'')) @
        fetched GradientsAcrossLayers rest"
    by (simp add: fetched_def)
  then show ?case
    by (simp add: Cons.IH keys_variance_tensors)
qed

lemma distinct_foldl_append_new: "distinct ks \<Longrightarrow> distinct (foldl append_new ks xs)"
  by (induction xs arbitrary: ks) (simp_all add: append_new_def)

lemma distinct_first_order: "distinct (first_order xs)"
  by (simp add: first_order_def distinct_foldl_append_new)

lemma try_block_of_raises:
  "tensor_value trial tname step = Inl e \<Longrightarrow>
   try_block_of nc trial step tname st = (st, Some e)"
  by (cases nc) (simp_all add: activation_try_def store_try_def)

lemma variance_try_raises:
  "tensor_value trial tname step = Inl e \<Longrightarrow> variance_try trial step tname st = (st, Some e)"
  by (simp add: variance_try_def)

section \<open>The run as a sequence of try blocks\<close>

lemma run_cell_processed:
  "run_cell step_fn trace final =
   (processed step_fn trace new_rule,
    if final = NoMoreData then PrintedExpectedEnd else Unhandled final)"
  using invoke_rule_fst [of step_fn trace final new_rule]
    invoke_rule_snd [of step_fn trace final new_rule]
  by (cases "invoke_rule step_fn trace final new_rule") (simp add: run_cell_def processed_def)

lemma processed_name_tensors:
  "tensors (processed (name_invoke_at_step c) trace st) = foldl (step_tensors c) (tensors st) trace"
  by (simp add: processed_def name_run_tensors)

lemma processed_variance_tensors:
  "tensors (processed GradientsAcrossLayers_invoke_at_step trace st) =
   foldl variance_tensors (tensors st) trace"
  by (simp add: processed_def variance_run_tensors)

lemma foldl_if_filter:
  "foldl (\<lambda>s x. if P x then f s x else s) s xs = foldl f s (filter P xs)"
  by (induction xs arbitrary: s) simp_all

lemma name_invoke_enter_try:
  "fst (name_invoke_at_step c trial step st) =
   foldl (enter_try c) st
     (map (\<lambda>tname. ((step, trial), tname))
        (filter (kept (excluded_of (NameKeyed c))) (tensor_names trial (regex_of (NameKeyed c)))))"
proof -
  have "foldl (\<lambda>s tname. except_warning tname (try_block_of c trial step tname s)) s xs =
        foldl (enter_try c) s (map (\<lambda>tname. ((step, trial), tname)) xs)" for s xs
    by (induction xs arbitrary: s) (simp_all add: enter_try_def)
  then show ?thesis
    by (simp add: name_invoke_at_step_eq for_tensor_names_def foldl_if_filter)
qed

lemma processed_enter_try:
  "processed (name_invoke_at_step c) trace st =
   foldl (enter_try c) st (entered (NameKeyed c) trace)"
proof (induction trace arbitrary: st)
  case Nil
  show ?case by (simp add: processed_def entered_def)
next
  case (Cons nt rest)
  have "processed (name_invoke_at_step c) (nt # rest) st =
        processed (name_invoke_at_step c) rest (fst (name_invoke_at_step c (snd nt) (fst nt) st))"
    by (simp add: processed_def)
  then show ?case
    using name_invoke_enter_try [of c "snd nt" "fst nt" st]
    by (simp add: Cons.IH entered_def)
qed

section \<open>Sample trials\<close>

declare rule_tensors.simps [simp del]
declare rule_tensors_name [simp] rule_tensors_step [simp]

lemma dict_has_Nil [simp]: "\<not> dict_has [] k"
  by (simp add: dict_has_def)

lemma relu_trial_names:
  "tensor_names relu_trial ''.*relu_output'' =
   [''conv0_relu_output_0'', ''gradients/conv0_relu_output_0'', ''dense0_relu_output_0'']"
  by (simp add: relu_trial_def)

lemma relu_trial_kept:
  "kept (Some ''gradients'') ''conv0_relu_output_0''"
  "\<not> kept (Some ''gradients'') ''gradients/conv0_relu_output_0''"
  "kept (Some ''gradients'') ''dense0_relu_output_0''"
  by (simp_all add: kept_def)

lemma relu_step:
  "step_tensors ActivationOutputs m (s, relu_trial) =
   nested_set m ''conv0_relu_output_0'' s
     (activation_value (value_at m ''conv0_relu_output_0'' s)
        \<lparr>shape = [4, 3],
         data = [Fin 1, Fin 1, Fin 1, Fin 1, Fin 1, Fin 1,
                 Fin 1, Fin 1, Fin 1, Fin 1, Fin 1, Fin 1]\<rparr>)"
  by (simp add: step_tensors_def relu_trial_def name_tensors_def kept_def apply_fetch_def)

lemma ones_mean:
  "batch_mean 4 [3] [Fin 1, Fin 1, Fin 1, Fin 1, Fin 1, Fin 1,
                     Fin 1, Fin 1, Fin 1, Fin 1, Fin 1, Fin 1] =
   \<lparr>shape = [3], data = [Fin 1, Fin 1, Fin 1]\<rparr>"
  by (simp add: batch_mean_def fl_sum_def upt_conv_Cons)

lemma ones_first:
  "activation_value None
     \<lparr>shape = [4, 3],
      data = [Fin 1, Fin 1, Fin 1, Fin 1, Fin 1, Fin 1,
              Fin 1, Fin 1, Fin 1, Fin 1, Fin 1, Fin 1]\<rparr> =
   Np \<lparr>shape = [3], data = [Fin 1, Fin 1, Fin 1]\<rparr>"
  using activation_value_first [of "\<lparr>shape = [4, 3],
      data = [Fin 1, Fin 1, Fin 1, Fin 1, Fin 1, Fin 1,
              Fin 1, Fin 1, Fin 1, Fin 1, Fin 1, Fin 1]\<rparr>" 4 "[3]"]
  by (simp add: wf_ndarray_def ones_mean)

lemma ones_again:
  "activation_value (Some (Np \<lparr>shape = [3], data = [Fin 1, Fin 1, Fin 1]\<rparr>))
     \<lparr>shape = [4, 3],
      data = [Fin 1, Fin 1, Fin 1, Fin 1, Fin 1, Fin 1,
              Fin 1, Fin 1, Fin 1, Fin 1, Fin 1, Fin 1]\<rparr> =
   Np \<lparr>shape = [3], data = [Fin 2, Fin 2, Fin 2]\<rparr>"
proof -
  have "batch_over_sum \<lparr>shape = [4, 3],
      data = [Fin 1, Fin 1, Fin 1, Fin 1, Fin 1, Fin 1,
              Fin 1, Fin 1, Fin 1, Fin 1, Fin 1, Fin 1]\<rparr> =
        Inr \<lparr>shape = [3], data = [Fin 1, Fin 1, Fin 1]\<rparr>"
    using batch_over_sum_eq [of "\<lparr>shape = [4, 3],
      data = [Fin 1, Fin 1, Fin 1, Fin 1, Fin 1, Fin 1,
              Fin 1, Fin 1, Fin 1, Fin 1, Fin 1, Fin 1]\<rparr>" 4 "[3]"]
    by (simp add: wf_ndarray_def ones_mean)
  then show ?thesis
    by (simp add: activation_value_def broadcast_to_def rows_def upt_conv_Cons)
qed

lemma relu_run1:
  "run_tensors ActivationOutputs [(0, relu_trial)] =
   [(''conv0_relu_output_0'', [(0, Np \<lparr>shape = [3], data = [Fin 1, Fin 1, Fin 1]\<rparr>)])]"
  by (simp add: run_tensors_def relu_step value_at_def ones_first nested_set_def inner_of_def
      dict_set_def)

lemma relu_run2:
  "run_tensors ActivationOutputs [(0, relu_trial), (0, relu_trial)] =
   [(''conv0_relu_output_0'', [(0, Np \<lparr>shape = [3], data = [Fin 2, Fin 2, Fin 2]\<rparr>)])]"
proof -
  have "run_tensors ActivationOutputs [(0, relu_trial), (0, relu_trial)] =
        step_tensors ActivationOutputs (run_tensors ActivationOutputs [(0, relu_trial)])
          (0, relu_trial)"
    by (simp add: run_tensors_def)
  then show ?thesis
    unfolding relu_run1
    by (simp add: relu_step value_at_def ones_again nested_set_def inner_of_def dict_set_def)
qed

lemma relu_run3:
  "run_tensors ActivationOutputs [(0, relu_trial), (1, relu_trial), (2, relu_trial)] =
   [(''conv0_relu_output_0'',
     [(0, Np \<lparr>shape = [3], data = [Fin 1, Fin 1, Fin 1]\<rparr>),
      (1, Np \<lparr>shape = [3], data = [Fin 1, Fin 1, Fin 1]\<rparr>),
      (2, Np \<lparr>shape = [3], data = [Fin 1, Fin 1, Fin 1]\<rparr>)])]"
  by (simp add: run_tensors_def relu_step value_at_def ones_first nested_set_def inner_of_def
      dict_set_def)

section \<open>Properties of the rules\<close>

text \<open>
  C4. When the variances of the gradient tensors that \<^verbatim>\<open>GradientsAcrossLayers\<close> fetches at
  a step are, in order, 0.1, 0.5 and 0.2, and the step has no entry yet, the pair recorded
  for the step is (0.1, 0.5).
\<close>

theorem GradientsAcrossLayers_sample_pair:
  assumes "fetched_variances trial step = [Fin 0.1, Fin 0.5, Fin 0.2]"
    and "\<not> dict_has (tensors st) step"
  shows "map_of (tensors (fst (GradientsAcrossLayers_invoke_at_step trial step st))) step =
         Some (Fin 0.1, Fin 0.5)"
proof -
  have "pair_at (tensors st) step = (PInf, Fin 0)"
    using assms(2) by (simp add: pair_at_def dict_has_def split: option.splits)
  then show ?thesis
    using GradientsAcrossLayers_pair [of trial step st] assms(1) by simp
qed

lemma sample_variances: "fetched_variances sample_trial 7 = [Fin 0.1, Fin 0.5, Fin 0.2]"
  by (simp add: fetched_variances_def sample_trial_def np_var_def flatten_def fl_sum_def fl_sub_def)

theorem GradientsAcrossLayers_sample_pair_witness:
  "fetched_variances sample_trial 7 = [Fin 0.1, Fin 0.5, Fin 0.2] \<and>
   \<not> dict_has (tensors (new_rule :: step_rule)) 7 \<and>
   map_of (tensors (fst (GradientsAcrossLayers_invoke_at_step sample_trial 7 new_rule))) 7 =
     Some (Fin 0.1, Fin 0.5)"
proof -
  have f: "\<not> dict_has (tensors (new_rule :: step_rule)) 7"
    by (simp add: new_rule_def dict_has_def)
  show ?thesis
    using GradientsAcrossLayers_sample_pair [OF sample_variances f] sample_variances f by simp
qed

text \<open>
  C3. The pair recorded for a step is not always (minimum, maximum) of the variances
  fetched at it: a variance that lowers the minimum never reaches the \<^verbatim>\<open>elif\<close> that
  raises the maximum. With two gradient tensors of variances 1/4 and 3/16, in this order,
  a new rule records (3/16, 0) for the step, where the maximum of the variances is 1/4.
\<close>

theorem GradientsAcrossLayers_decreasing_variances:
  "fetched_variances vanishing_trial 0 = [Fin (1/4), Fin (3/16)] \<and>
   map_of (tensors (fst (GradientsAcrossLayers_invoke_at_step vanishing_trial 0 new_rule))) 0 =
     Some (Fin (3/16), Fin 0)"
  by (simp add: GradientsAcrossLayers_invoke_at_step_def for_tensor_names_def kept_def
      except_warning_def variance_try_def vanishing_trial_def np_var_def flatten_def fl_sum_def
      fl_sub_def new_rule_def dict_has_def map_of_dict_set info_def fetched_variances_def)

text \<open>
  C10. \<^verbatim>\<open>invoke_at_step\<close> of each of the seven rule classes returns \<^verbatim>\<open>False\<close>, for every
  trial, step and state of the rule object.
\<close>

theorem invoke_at_step_returns_False:
  "snd (ActivationOutputs_invoke_at_step trial step st) = False \<and>
   snd (ActivationInputs_invoke_at_step trial step st) = False \<and>
   snd (GradientsLayer_invoke_at_step trial step st) = False \<and>
   snd (GradientsAcrossLayers_invoke_at_step trial step st') = False \<and>
   snd (WeightRatio_invoke_at_step trial step st) = False \<and>
   snd (Inputs_invoke_at_step trial step st) = False \<and>
   snd (Outputs_invoke_at_step trial step st) = False"
  by (simp add: ActivationOutputs_invoke_at_step_def ActivationInputs_invoke_at_step_def
      GradientsLayer_invoke_at_step_def GradientsAcrossLayers_invoke_at_step_def
      WeightRatio_invoke_at_step_def Inputs_invoke_at_step_def Outputs_invoke_at_step_def)

text \<open>
  C1 (as stated). After \<^verbatim>\<open>GradientsAcrossLayers\<close> has processed step 0 of a trial whose
  gradient tensor \<^verbatim>\<open>gradient/conv0_weight\<close> matches the filter and is fetched, its dict is
  keyed by the step alone and has no entry for the name and the step.
\<close>

theorem GradientsAcrossLayers_no_name_entry:
  "''gradient/conv0_weight'' \<in> set (tensor_names vanishing_trial (regex_of GradientsAcrossLayers)) \<and>
   kept (excluded_of GradientsAcrossLayers) ''gradient/conv0_weight'' \<and>
   tensor_value vanishing_trial ''gradient/conv0_weight'' 0 =
     Inr \<lparr>shape = [2], data = [Fin 0, Fin 1]\<rparr> \<and>
   rule_tensors GradientsAcrossLayers [(0, vanishing_trial)] = ByStep [(0, Fin (3/16), Fin 0)] \<and>
   \<not> has_entry (rule_tensors GradientsAcrossLayers [(0, vanishing_trial)]) ''gradient/conv0_weight'' 0"
proof -
  have "fetched_variances vanishing_trial 0 = [Fin (1/4), Fin (3/16)]"
    by (simp add: fetched_variances_def vanishing_trial_def np_var_def flatten_def fl_sum_def
        fl_sub_def)
  then have "rule_tensors GradientsAcrossLayers [(0, vanishing_trial)] =
             ByStep [(0, Fin (3/16), Fin 0)]"
    by (simp add: rule_tensors_step variance_tensors_def pair_at_def dict_set_def)
  then show ?thesis
    by (simp add: vanishing_trial_def kept_def)
qed

text \<open>
  C1 (amended). When a name passes the filter of a rule and its tensor is fetched at a
  step, then after the rule has processed the step: the dict of each name-keyed class has
  an entry for the name and the step (for \<^verbatim>\<open>GradientsLayer\<close>: when the tensor has at least
  one element), and the dict of \<^verbatim>\<open>GradientsAcrossLayers\<close> has an entry for the step.
\<close>

theorem fetched_tensor_has_entry:
  assumes "tname \<in> set (tensor_names trial (regex_of c))"
    and "kept (excluded_of c) tname"
    and "tensor_value trial tname step = Inr tensor"
    and "c = NameKeyed GradientsLayer \<longrightarrow> data tensor \<noteq> []"
  shows "if c = GradientsAcrossLayers
         then has_step (rule_tensors c (pre @ [(step, trial)])) step
         else has_entry (rule_tensors c (pre @ [(step, trial)])) tname step"
proof (cases c)
  case (NameKeyed nc)
  have "name_step_in (step_tensors nc (run_tensors nc pre) (step, trial)) tname step"
    using assms unfolding NameKeyed by (intro step_tensors_fetched) simp_all
  then show ?thesis
    by (simp add: NameKeyed rule_tensors_name run_tensors_snoc)
next
  case GradientsAcrossLayers
  have "fetched_variances trial step \<noteq> []"
    using assms(1,3) unfolding GradientsAcrossLayers
    by (intro fetched_variances_nonempty [of tname]) simp_all
  then show ?thesis
    by (simp add: GradientsAcrossLayers rule_tensors_step dict_has_variance_tensors)
qed

theorem fetched_tensor_has_entry_witness:
  "''conv0_relu_output_0'' \<in> set (tensor_names relu_trial (regex_of (NameKeyed ActivationOutputs))) \<and>
   kept (excluded_of (NameKeyed ActivationOutputs)) ''conv0_relu_output_0'' \<and>
   tensor_value relu_trial ''conv0_relu_output_0'' 0 =
     Inr \<lparr>shape = [4, 3],
          data = [Fin 1, Fin 1, Fin 1, Fin 1, Fin 1, Fin 1,
                  Fin 1, Fin 1, Fin 1, Fin 1, Fin 1, Fin 1]\<rparr> \<and>
   has_entry (rule_tensors (NameKeyed ActivationOutputs) ([] @ [(0, relu_trial)]))
     ''conv0_relu_output_0'' 0"
proof -
  have 1: "''conv0_relu_output_0'' \<in> set (tensor_names relu_trial (regex_of (NameKeyed ActivationOutputs)))"
    by (simp add: relu_trial_names)
  have 2: "kept (excluded_of (NameKeyed ActivationOutputs)) ''conv0_relu_output_0''"
    by (simp add: relu_trial_kept)
  have 3: "tensor_value relu_trial ''conv0_relu_output_0'' 0 =
           Inr \<lparr>shape = [4, 3],
                data = [Fin 1, Fin 1, Fin 1, Fin 1, Fin 1, Fin 1,
                        Fin 1, Fin 1, Fin 1, Fin 1, Fin 1, Fin 1]\<rparr>"
    by (simp add: relu_trial_def)
  have 4: "NameKeyed ActivationOutputs = NameKeyed GradientsLayer \<longrightarrow>
           data \<lparr>shape = [4, 3],
                data = [Fin 1, Fin 1, Fin 1, Fin 1, Fin 1, Fin 1,
                        Fin 1, Fin 1, Fin 1, Fin 1, Fin 1, Fin 1]\<rparr> \<noteq> []"
    by simp
  show ?thesis
    using fetched_tensor_has_entry [OF 1 2 3 4, of "[]"] 1 2 3 by simp
qed

text \<open>
  C7. A tensor name that the trial never lists for the regular expression of a rule, or
  that contains the substring the rule excludes, is no key of the rule's dict after any
  sequence of steps, and has no entry at any step.
\<close>

theorem unlisted_or_excluded_name_has_no_entry:
  assumes "(\<forall>nt \<in> set trace. tname \<notin> set (tensor_names (snd nt) (regex_of c))) \<or>
           \<not> kept (excluded_of c) tname"
  shows "\<not> has_name (rule_tensors c trace) tname \<and>
         \<not> has_entry (rule_tensors c trace) tname step"
proof (cases c)
  case (NameKeyed nc)
  have "\<not> dict_has (run_tensors nc trace) tname"
    using dict_has_run [of nc "[]" trace tname] assms
    unfolding NameKeyed run_tensors_def by auto
  then show ?thesis
    using name_step_in_dict_has [of "run_tensors nc trace" tname step]
    by (auto simp add: NameKeyed rule_tensors_name)
next
  case GradientsAcrossLayers
  then show ?thesis by (simp add: rule_tensors_step)
qed

theorem unlisted_or_excluded_name_has_no_entry_witness:
  "''gradients/conv0_relu_output_0'' \<in>
     set (tensor_names relu_trial (regex_of (NameKeyed ActivationOutputs))) \<and>
   \<not> kept (excluded_of (NameKeyed ActivationOutputs)) ''gradients/conv0_relu_output_0'' \<and>
   \<not> has_name (rule_tensors (NameKeyed ActivationOutputs) [(0, relu_trial)])
       ''gradients/conv0_relu_output_0'' \<and>
   \<not> has_entry (rule_tensors (NameKeyed ActivationOutputs) [(0, relu_trial)])
       ''gradients/conv0_relu_output_0'' 0"
proof -
  have h: "(\<forall>nt \<in> set [(0, relu_trial)].
       ''gradients/conv0_relu_output_0'' \<notin>
         set (tensor_names (snd nt) (regex_of (NameKeyed ActivationOutputs)))) \<or>
    \<not> kept (excluded_of (NameKeyed ActivationOutputs)) ''gradients/conv0_relu_output_0''"
    by (simp add: relu_trial_kept)
  show ?thesis
    using unlisted_or_excluded_name_has_no_entry [OF h, of 0]
    by (simp add: relu_trial_kept relu_trial_names)
qed

text \<open>
  C5. When the fetch of a tensor that passes the filter fails at a step, the \<^verbatim>\<open>try\<close>
  block raises the exception of the fetch with the rule unchanged, the handler returns
  the rule with the warning for the name added to the log, and the warning is in the log
  of the run. The dict the rule accumulates over all the steps is the one it would
  accumulate if the trial did not list, at each step, the names whose fetch fails there:
  the entries of the other names at the step and of every name at later steps are what
  they are without the failure.
\<close>

theorem failed_fetch_logged_and_skipped:
  assumes "(step, trial) \<in> set trace"
    and "tname \<in> set (tensor_names trial (regex_of c))"
    and "kept (excluded_of c) tname"
    and "tensor_value trial tname step = Inl e"
  shows "Warning tname \<in> set (rule_log c trace) \<and>
         rule_tensors c trace = rule_tensors c (map drop_failed trace) \<and>
         try_block_of nc trial step tname st = (st, Some e) \<and>
         except_warning tname (try_block_of nc trial step tname st) =
           st\<lparr>logger := logger st @ [Warning tname]\<rparr> \<and>
         variance_try trial step tname st' = (st', Some e) \<and>
         except_warning tname (variance_try trial step tname st') =
           st'\<lparr>logger := logger st' @ [Warning tname]\<rparr>"
  using rule_log_warning [OF assms] rule_tensors_drop_failed [of c trace]
    try_block_of_raises [OF assms(4)] variance_try_raises [OF assms(4)]
  by (simp add: except_warning_def)

theorem failed_fetch_logged_and_skipped_witness:
  "(0, relu_trial) \<in> set [(0, relu_trial), (1, relu_trial)] \<and>
   ''dense0_relu_output_0'' \<in> set (tensor_names relu_trial (regex_of (NameKeyed ActivationOutputs))) \<and>
   kept (excluded_of (NameKeyed ActivationOutputs)) ''dense0_relu_output_0'' \<and>
   tensor_value relu_trial ''dense0_relu_output_0'' 0 = Inl TensorUnavailableForStep \<and>
   Warning ''dense0_relu_output_0'' \<in>
     set (rule_log (NameKeyed ActivationOutputs) [(0, relu_trial), (1, relu_trial)]) \<and>
   rule_tensors (NameKeyed ActivationOutputs) [(0, relu_trial), (1, relu_trial)] =
     rule_tensors (NameKeyed ActivationOutputs) (map drop_failed [(0, relu_trial), (1, relu_trial)]) \<and>
   rule_tensors (NameKeyed ActivationOutputs) [(0, relu_trial), (1, relu_trial)] =
     ByName [(''conv0_relu_output_0'',
              [(0, Np \<lparr>shape = [3], data = [Fin 1, Fin 1, Fin 1]\<rparr>),
               (1, Np \<lparr>shape = [3], data = [Fin 1, Fin 1, Fin 1]\<rparr>)])] \<and>
   except_warning ''dense0_relu_output_0''
     (try_block_of ActivationOutputs relu_trial 0 ''dense0_relu_output_0'' new_rule) =
     \<lparr>tensors = [], logger = [Warning ''dense0_relu_output_0'']\<rparr>"
proof -
  have 1: "(0, relu_trial) \<in> set [(0, relu_trial), (1, relu_trial)]" by simp
  have 2: "''dense0_relu_output_0'' \<in>
           set (tensor_names relu_trial (regex_of (NameKeyed ActivationOutputs)))"
    by (simp add: relu_trial_names)
  have 3: "kept (excluded_of (NameKeyed ActivationOutputs)) ''dense0_relu_output_0''"
    by (simp add: relu_trial_kept)
  have 4: "tensor_value relu_trial ''dense0_relu_output_0'' 0 = Inl TensorUnavailableForStep"
    by (simp add: relu_trial_def)
  have 5: "run_tensors ActivationOutputs [(0, relu_trial), (1, relu_trial)] =
           [(''conv0_relu_output_0'',
              [(0, Np \<lparr>shape = [3], data = [Fin 1, Fin 1, Fin 1]\<rparr>),
               (1, Np \<lparr>shape = [3], data = [Fin 1, Fin 1, Fin 1]\<rparr>)])]"
    by (simp add: run_tensors_def relu_step value_at_def ones_first nested_set_def inner_of_def
        dict_set_def)
  show ?thesis
    using failed_fetch_logged_and_skipped [OF 1 2 3 4, of ActivationOutputs new_rule new_rule]
      1 2 3 4 5
    by (simp add: new_rule_def except_warning_def)
qed

text \<open>
  C2. When an activation rule processes a step at which a listed name that passes the
  filter has not been aggregated yet, and the tensor fetched for it has a first (batch)
  dimension, the value it then holds for the name and the step is the element-wise sum of
  the tensor over that dimension divided by the batch size. (The witness is the tensor of
  shape (4, 3) with all entries 1, with the value (1, 1, 1).)
\<close>

theorem activation_value_is_batch_mean:
  assumes "c = ActivationOutputs \<or> c = ActivationInputs"
    and "tname \<in> set (tensor_names trial (regex_of (NameKeyed c)))"
    and "distinct (tensor_names trial (regex_of (NameKeyed c)))"
    and "kept (excluded_of (NameKeyed c)) tname"
    and "tensor_value trial tname step = Inr tensor"
    and "shape tensor = b # rest" and "wf_ndarray tensor"
    and "\<not> name_step_in (tensors st) tname step"
  shows "value_at (tensors (fst (name_invoke_at_step c trial step st))) tname step =
         Some (Np (batch_mean b rest (data tensor)))"
proof -
  obtain xs ys where names: "tensor_names trial (regex_of (NameKeyed c)) = xs @ tname # ys"
    using assms(2) by (meson split_list)
  have out: "tname \<notin> set xs" "tname \<notin> set ys"
    using assms(3) unfolding names by simp_all
  let ?m1 = "foldl (name_tensors c trial step) (tensors st) xs"
  have before: "value_at ?m1 tname step = None"
    using assms(8) by (simp add: value_at_foldl_other_names [OF out(1)] name_step_in_iff)
  have "value_at (name_tensors c trial step ?m1 tname) tname step =
        Some (Np (batch_mean b rest (data tensor)))"
    by (simp add: name_tensors_activation [OF assms(1,4,5)] before
        activation_value_first [OF assms(6,7)])
  then show ?thesis
    by (simp add: name_invoke_tensors step_tensors_def names
        value_at_foldl_other_names [OF out(2)])
qed

theorem activation_value_is_batch_mean_witness:
  "(ActivationOutputs = ActivationOutputs \<or> ActivationOutputs = ActivationInputs) \<and>
   ''conv0_relu_output_0'' \<in> set (tensor_names relu_trial (regex_of (NameKeyed ActivationOutputs))) \<and>
   distinct (tensor_names relu_trial (regex_of (NameKeyed ActivationOutputs))) \<and>
   kept (excluded_of (NameKeyed ActivationOutputs)) ''conv0_relu_output_0'' \<and>
   tensor_value relu_trial ''conv0_relu_output_0'' 0 =
     Inr \<lparr>shape = [4, 3],
          data = [Fin 1, Fin 1, Fin 1, Fin 1, Fin 1, Fin 1,
                  Fin 1, Fin 1, Fin 1, Fin 1, Fin 1, Fin 1]\<rparr> \<and>
   wf_ndarray \<lparr>shape = [4, 3],
          data = [Fin 1, Fin 1, Fin 1, Fin 1, Fin 1, Fin 1,
                  Fin 1, Fin 1, Fin 1, Fin 1, Fin 1, Fin 1]\<rparr> \<and>
   \<not> name_step_in (tensors (new_rule :: name_rule)) ''conv0_relu_output_0'' 0 \<and>
   value_at (tensors (fst (name_invoke_at_step ActivationOutputs relu_trial 0 new_rule)))
     ''conv0_relu_output_0'' 0 =
     Some (Np \<lparr>shape = [3], data = [Fin 1, Fin 1, Fin 1]\<rparr>)"
proof -
  let ?ones = "\<lparr>shape = [4, 3],
          data = [Fin 1, Fin 1, Fin 1, Fin 1, Fin 1, Fin 1,
                  Fin 1, Fin 1, Fin 1, Fin 1, Fin 1, Fin 1]\<rparr>"
  have 1: "ActivationOutputs = ActivationOutputs \<or> ActivationOutputs = ActivationInputs"
    by simp
  have 2: "''conv0_relu_output_0'' \<in>
           set (tensor_names relu_trial (regex_of (NameKeyed ActivationOutputs)))"
    by (simp add: relu_trial_names)
  have 3: "distinct (tensor_names relu_trial (regex_of (NameKeyed ActivationOutputs)))"
    by (simp add: relu_trial_names)
  have 4: "kept (excluded_of (NameKeyed ActivationOutputs)) ''conv0_relu_output_0''"
    by (simp add: relu_trial_kept)
  have 5: "tensor_value relu_trial ''conv0_relu_output_0'' 0 = Inr ?ones"
    by (simp add: relu_trial_def)
  have 6: "shape ?ones = 4 # [3]" by simp
  have 7: "wf_ndarray ?ones" by (simp add: wf_ndarray_def)
  have 8: "\<not> name_step_in (tensors (new_rule :: name_rule)) ''conv0_relu_output_0'' 0"
    by (simp add: new_rule_def)
  show ?thesis
    using activation_value_is_batch_mean [OF 1 2 3 4 5 6 7 8] 2 3 4 5 7 8
    by (simp add: ones_mean)
qed

text \<open>
  C8 (as stated). The steps 0, 0 arrive in non-decreasing order, and
  \<^verbatim>\<open>ActivationOutputs\<close> aggregates the pair (\<^verbatim>\<open>conv0_relu_output_0\<close>, 0) twice: the value
  (1, 1, 1) it holds after the first notification is (2, 2, 2) after the second.
\<close>

theorem repeated_step_aggregated_twice:
  "sorted (map fst [(0 :: int, relu_trial), (0, relu_trial)]) \<and>
   entry_value (rule_tensors (NameKeyed ActivationOutputs) [(0, relu_trial)])
     ''conv0_relu_output_0'' 0 =
     Some (Np \<lparr>shape = [3], data = [Fin 1, Fin 1, Fin 1]\<rparr>) \<and>
   entry_value (rule_tensors (NameKeyed ActivationOutputs) [(0, relu_trial), (0, relu_trial)])
     ''conv0_relu_output_0'' 0 =
     Some (Np \<lparr>shape = [3], data = [Fin 2, Fin 2, Fin 2]\<rparr>)"
  by (simp add: relu_run1 relu_run2 value_at_def)

text \<open>
  C8 (amended). Over notifications whose steps strictly increase and whose trials list
  every name once, the rule object of a name-keyed class after the run is the result of
  entering the \<^verbatim>\<open>try\<close> block, in order, once for each element of a list in which no pair
  (name, step) occurs twice; the rule has no entry for a step before the step arrives;
  and the value it holds for a name and the step once the step is processed is the value
  it holds after all the later steps.
\<close>

theorem each_step_aggregated_once:
  assumes "sorted_wrt (<) (map fst (pre @ (step, trial) # post))"
    and "\<forall>nt \<in> set (pre @ (step, trial) # post).
           distinct (tensor_names (snd nt) (regex_of (NameKeyed c)))"
  shows "fst (run_cell (name_invoke_at_step c) (pre @ (step, trial) # post) NoMoreData) =
           foldl (enter_try c) new_rule (entered (NameKeyed c) (pre @ (step, trial) # post)) \<and>
         distinct (visits (NameKeyed c) (pre @ (step, trial) # post)) \<and>
         \<not> has_entry (rule_tensors (NameKeyed c) pre) tname step \<and>
         entry_value (rule_tensors (NameKeyed c) (pre @ (step, trial) # post)) tname step =
           entry_value (rule_tensors (NameKeyed c) (pre @ [(step, trial)])) tname step"
proof -
  have 0: "fst (run_cell (name_invoke_at_step c) (pre @ (step, trial) # post) NoMoreData) =
           foldl (enter_try c) new_rule (entered (NameKeyed c) (pre @ (step, trial) # post))"
    by (simp add: run_cell_processed processed_enter_try)
  have 1: "\<not> name_step_in (run_tensors c pre) tname step"
    using name_step_in_run_cases [of c "[]" pre tname step]
      strictly_increasing_split(1) [OF assms(1)]
    by (auto simp add: run_tensors_def)
  have "run_tensors c (pre @ (step, trial) # post) =
        foldl (step_tensors c) (run_tensors c (pre @ [(step, trial)])) post"
    by (simp add: run_tensors_def)
  then have 2: "value_at (run_tensors c (pre @ (step, trial) # post)) tname step =
                value_at (run_tensors c (pre @ [(step, trial)])) tname step"
    using value_at_run_other_steps [OF strictly_increasing_split(2) [OF assms(1)]]
    by simp
  show ?thesis
    using 0 1 2 distinct_visits [OF assms] by simp
qed

theorem each_step_aggregated_once_witness:
  "sorted_wrt (<) (map fst ([(0 :: int, relu_trial)] @ (1, relu_trial) # [(2, relu_trial)])) \<and>
   distinct (tensor_names relu_trial (regex_of (NameKeyed ActivationOutputs))) \<and>
   fst (run_cell (name_invoke_at_step ActivationOutputs)
          ([(0, relu_trial)] @ (1, relu_trial) # [(2, relu_trial)]) NoMoreData) =
     foldl (enter_try ActivationOutputs) new_rule
       (entered (NameKeyed ActivationOutputs)
          ([(0, relu_trial)] @ (1, relu_trial) # [(2, relu_trial)])) \<and>
   distinct (visits (NameKeyed ActivationOutputs)
     ([(0, relu_trial)] @ (1, relu_trial) # [(2, relu_trial)])) \<and>
   visits (NameKeyed ActivationOutputs)
     ([(0, relu_trial)] @ (1, relu_trial) # [(2, relu_trial)]) =
     [(''conv0_relu_output_0'', 0), (''dense0_relu_output_0'', 0),
      (''conv0_relu_output_0'', 1), (''dense0_relu_output_0'', 1),
      (''conv0_relu_output_0'', 2), (''dense0_relu_output_0'', 2)] \<and>
   \<not> has_entry (rule_tensors (NameKeyed ActivationOutputs) [(0, relu_trial)])
       ''conv0_relu_output_0'' 1 \<and>
   entry_value (rule_tensors (NameKeyed ActivationOutputs)
       ([(0, relu_trial)] @ (1, relu_trial) # [(2, relu_trial)])) ''conv0_relu_output_0'' 1 =
     entry_value (rule_tensors (NameKeyed ActivationOutputs)
       ([(0, relu_trial)] @ [(1, relu_trial)])) ''conv0_relu_output_0'' 1 \<and>
   entry_value (rule_tensors (NameKeyed ActivationOutputs)
       ([(0, relu_trial)] @ (1, relu_trial) # [(2, relu_trial)])) ''conv0_relu_output_0'' 1 =
     Some (Np \<lparr>shape = [3], data = [Fin 1, Fin 1, Fin 1]\<rparr>)"
proof -
  have 1: "sorted_wrt (<) (map fst ([(0 :: int, relu_trial)] @ (1, relu_trial) # [(2, relu_trial)]))"
    by simp
  have 2: "\<forall>nt \<in> set ([(0, relu_trial)] @ (1, relu_trial) # [(2, relu_trial)]).
      distinct (tensor_names (snd nt) (regex_of (NameKeyed ActivationOutputs)))"
    by (simp add: relu_trial_names)
  have 3: "distinct (tensor_names relu_trial (regex_of (NameKeyed ActivationOutputs)))"
    by (simp add: relu_trial_names)
  have 4: "visits (NameKeyed ActivationOutputs)
     ([(0, relu_trial)] @ (1, relu_trial) # [(2, relu_trial)]) =
     [(''conv0_relu_output_0'', 0), (''dense0_relu_output_0'', 0),
      (''conv0_relu_output_0'', 1), (''dense0_relu_output_0'', 1),
      (''conv0_relu_output_0'', 2), (''dense0_relu_output_0'', 2)]"
    by (simp add: visits_def entered_def relu_trial_names relu_trial_kept)
  have 5: "entry_value (rule_tensors (NameKeyed ActivationOutputs)
       ([(0, relu_trial)] @ (1, relu_trial) # [(2, relu_trial)])) ''conv0_relu_output_0'' 1 =
     Some (Np \<lparr>shape = [3], data = [Fin 1, Fin 1, Fin 1]\<rparr>)"
    by (simp add: relu_run3 value_at_def)
  show ?thesis
    using each_step_aggregated_once [OF 1 2, of "''conv0_relu_output_0''"] 1 3 4 5
    by simp
qed

text \<open>
  C6. When the source signals \<^verbatim>\<open>NoMoreData\<close> after any list of notifications, the cell
  of each rule class ends in its \<^verbatim>\<open>except NoMoreData\<close> branch with no exception left
  unhandled, and the rule object it leaves is the one the notifications before the signal
  have built, with its dict and its log. Every entry the rule had accumulated after an
  earlier part of the notifications is in the dict it exposes after the signal.
\<close>

theorem no_more_data_is_expected_end:
  "run_cell (name_invoke_at_step nc) trace NoMoreData =
     (processed (name_invoke_at_step nc) trace new_rule, PrintedExpectedEnd) \<and>
   run_cell GradientsAcrossLayers_invoke_at_step trace NoMoreData =
     (processed GradientsAcrossLayers_invoke_at_step trace new_rule, PrintedExpectedEnd) \<and>
   (name_step_in (tensors (processed (name_invoke_at_step nc) pre new_rule)) tname step \<longrightarrow>
      has_entry (rule_tensors (NameKeyed nc) (pre @ post)) tname step) \<and>
   (value_at (tensors (processed (name_invoke_at_step nc) trace new_rule)) tname step =
      entry_value (rule_tensors (NameKeyed nc) trace) tname step) \<and>
   (dict_has (tensors (processed GradientsAcrossLayers_invoke_at_step pre new_rule)) step \<longrightarrow>
      has_step (rule_tensors GradientsAcrossLayers (pre @ post)) step)"
proof -
  have 1: "name_step_in (tensors (processed (name_invoke_at_step nc) pre new_rule)) tname step \<longrightarrow>
           has_entry (rule_tensors (NameKeyed nc) (pre @ post)) tname step"
    using name_step_in_append [of nc pre tname step post]
    by (simp add: processed_name_tensors run_tensors_def new_rule_def)
  have 2: "dict_has (tensors (processed GradientsAcrossLayers_invoke_at_step pre new_rule)) step \<longrightarrow>
           has_step (rule_tensors GradientsAcrossLayers (pre @ post)) step"
    by (simp add: processed_variance_tensors new_rule_def dict_has_variance_run)
  have 3: "value_at (tensors (processed (name_invoke_at_step nc) trace new_rule)) tname step =
           entry_value (rule_tensors (NameKeyed nc) trace) tname step"
    by (simp add: processed_name_tensors run_tensors_def new_rule_def)
  show ?thesis
    using 1 2 3 by (simp add: run_cell_processed)
qed

theorem no_more_data_is_expected_end_witness:
  "name_step_in (tensors (processed (name_invoke_at_step ActivationOutputs) [(0, relu_trial)] new_rule))
     ''conv0_relu_output_0'' 0 \<and>
   has_entry (rule_tensors (NameKeyed ActivationOutputs) ([(0, relu_trial)] @ [(0, relu_trial)]))
     ''conv0_relu_output_0'' 0 \<and>
   dict_has (tensors (processed GradientsAcrossLayers_invoke_at_step [(7, sample_trial)] new_rule)) 7 \<and>
   has_step (rule_tensors GradientsAcrossLayers ([(7, sample_trial)] @ [(8, sample_trial)])) 7 \<and>
   run_cell (name_invoke_at_step ActivationOutputs) [(0, relu_trial)] NoMoreData =
     (processed (name_invoke_at_step ActivationOutputs) [(0, relu_trial)] new_rule,
      PrintedExpectedEnd) \<and>
   tensors (fst (run_cell (name_invoke_at_step ActivationOutputs) [(0, relu_trial)] NoMoreData)) =
     [(''conv0_relu_output_0'', [(0, Np \<lparr>shape = [3], data = [Fin 1, Fin 1, Fin 1]\<rparr>)])]"
proof -
  have t: "tensors (processed (name_invoke_at_step ActivationOutputs) [(0, relu_trial)] new_rule) =
           [(''conv0_relu_output_0'', [(0, Np \<lparr>shape = [3], data = [Fin 1, Fin 1, Fin 1]\<rparr>)])]"
    using relu_run1 processed_name_tensors [of ActivationOutputs "[(0, relu_trial)]" new_rule]
    by (simp add: run_tensors_def new_rule_def)
  have 1: "name_step_in
             (tensors (processed (name_invoke_at_step ActivationOutputs) [(0, relu_trial)] new_rule))
             ''conv0_relu_output_0'' 0"
    using t by (simp add: name_step_in_def dict_has_def)
  have 2: "dict_has
             (tensors (processed GradientsAcrossLayers_invoke_at_step [(7, sample_trial)] new_rule)) 7"
    by (simp add: processed_variance_tensors new_rule_def dict_has_variance_tensors sample_variances)
  show ?thesis
    using no_more_data_is_expected_end [where nc = ActivationOutputs
        and trace = "[(0, relu_trial)]" and pre = "[(0, relu_trial)]"
        and tname = "''conv0_relu_output_0''" and step = 0 and post = "[(0, relu_trial)]"]
      no_more_data_is_expected_end [where nc = ActivationOutputs
        and trace = "[(0, relu_trial)]" and pre = "[(7, sample_trial)]"
        and tname = "''conv0_relu_output_0''" and step = 7 and post = "[(8, sample_trial)]"]
      1 2 t
    by simp
qed

text \<open>
  C9 (as stated). The dict that \<^verbatim>\<open>GradientsAcrossLayers\<close> exposes after step 7 of the
  sample trial has the step as its key and the pair of variances as value: its keys are
  no tensor names.
\<close>

theorem GradientsAcrossLayers_keyed_by_step:
  "rule_tensors GradientsAcrossLayers [(7, sample_trial)] = ByStep [(7, Fin 0.1, Fin 0.5)] \<and>
   \<not> keyed_by_name (rule_tensors GradientsAcrossLayers [(7, sample_trial)])"
  by (simp add: variance_tensors_def sample_variances pair_at_def dict_set_def)

text \<open>
  C9 (amended). The dict of each of the six name-keyed classes maps tensor names, in the
  order in which the rule first fetched them, to dicts whose keys are the steps at which
  the rule stored a value for the name, in the order in which it first did so. The dict
  of \<^verbatim>\<open>GradientsAcrossLayers\<close> maps steps, in the order in which a tensor was first fetched
  at them, to a pair. No key occurs twice.
\<close>

theorem tensors_keys_in_first_encounter_order:
  "(\<exists>m. rule_tensors (NameKeyed nc) trace = ByName m \<and>
        map fst m = first_order (map fst (fetched (NameKeyed nc) trace)) \<and>
        (\<forall>tname. map fst (inner_of m tname) =
           first_order (map snd (filter (\<lambda>p. fst p = tname) (stored nc trace)))) \<and>
        distinct (map fst m) \<and> (\<forall>tname. distinct (map fst (inner_of m tname)))) \<and>
   (\<exists>m. rule_tensors GradientsAcrossLayers trace = ByStep m \<and>
        map fst m = first_order (map snd (fetched GradientsAcrossLayers trace)) \<and>
        distinct (map fst m))"
proof -
  have 1: "map fst (run_tensors nc trace) = first_order (map fst (fetched (NameKeyed nc) trace))"
    using keys_run [of nc "[]" trace] by (simp add: run_tensors_def first_order_def)
  have 2: "map fst (inner_of (run_tensors nc trace) tname) =
           first_order (map snd (filter (\<lambda>p. fst p = tname) (stored nc trace)))" for tname
    using inner_keys_run [of nc "[]" trace tname]
    by (simp add: run_tensors_def first_order_def inner_of_def)
  have 3: "map fst (foldl variance_tensors [] trace) =
           first_order (map snd (fetched GradientsAcrossLayers trace))"
    using keys_variance_run [of "[]" trace] by (simp add: first_order_def)
  show ?thesis
    by (simp add: 1 2 3 distinct_first_order)
qed

end
